theory Spec2Isabelle
  imports Main "HOL-Library.Sublist"
begin

section \<open>Strings and the platform's URL class\<close>

text \<open>
  A JavaScript string is modelled by the bytes of its UTF-8 encoding, one \<^typ>\<open>char\<close> per
  byte. The operations the service uses on strings (emptiness, \<open>includes\<close>, \<open>replace\<close>
  with a string pattern) agree on the UTF-8 bytes and on the UTF-16 code units of a
  well-formed string.
\<close>

datatype exn =
    InvalidURL                \<comment> \<open>the \<open>TypeError\<close> of \<open>new URL(...)\<close>\<close>
  | InvalidAddress string     \<comment> \<open>\<open>Error('Invalid unsubscribe email address: ' + input)\<close>\<close>
  | TypeError                 \<comment> \<open>reading a property of \<open>undefined\<close>\<close>
  | Thrown string             \<comment> \<open>anything a collaborator raises or rejects with\<close>

subsection \<open>\<open>String.prototype.replace\<close> and \<open>includes\<close>\<close>

text \<open>\<open>s.replace(pat, rep)\<close> with a string pattern replaces the first occurrence only;
  the empty pattern matches at position 0.\<close>

fun replace :: "string \<Rightarrow> string \<Rightarrow> string \<Rightarrow> string" where
  "replace [] pat rep = (if pat = [] then rep else [])"
| "replace (c # cs) pat rep =
     (if prefix pat (c # cs) then rep @ drop (length pat) (c # cs)
      else c # replace cs pat rep)"

definition str_includes :: "string \<Rightarrow> char \<Rightarrow> bool" where
  "str_includes s c = (c \<in> set s)"

subsection \<open>The URL parser on \<open>mailto://\<close> followed by the input\<close>

text \<open>
  \<open>new URL('mailto://' + s)\<close> runs the URL Standard's basic parser. The scheme \<open>mailto\<close>
  is not special, and the two slashes send the parser to the authority state, so what
  follows is an authority, a path, a query and a fragment. The model covers what the
  service observes: whether the constructor throws, \<open>search\<close>, and \<open>searchParams.get\<close>.
  The parser for an IPv6 literal (a host in square brackets) is a parameter.
\<close>

definition c0_control_or_space :: "char \<Rightarrow> bool" where
  "c0_control_or_space c = ((of_char c :: nat) \<le> 32)"

definition tab_or_newline :: "char \<Rightarrow> bool" where
  "tab_or_newline c = ((of_char c :: nat) \<in> {9, 10, 13})"

text \<open>The parser first drops trailing C0 controls and spaces (the input starts with
  \<open>mailto\<close>, so there are no leading ones), then every tab and newline.\<close>

definition clean_input :: "string \<Rightarrow> string" where
  "clean_input s =
     filter (\<lambda>c. \<not> tab_or_newline c) (rev (dropWhile c0_control_or_space (rev s)))"

definition forbidden_host_code_point :: "char \<Rightarrow> bool" where
  "forbidden_host_code_point c =
     ((of_char c :: nat) \<in> {0, 9, 10, 13, 32, 92} \<or> c \<in> set ''#/:<>?@[]^|'')"

definition ascii_digit :: "char \<Rightarrow> bool" where
  "ascii_digit c = (48 \<le> (of_char c :: nat) \<and> (of_char c :: nat) \<le> 57)"

fun decimal :: "nat \<Rightarrow> string \<Rightarrow> nat" where
  "decimal acc [] = acc"
| "decimal acc (c # cs) = decimal (10 * acc + (of_char c - 48)) cs"

text \<open>Port state: digits only, and a non-empty port is at most 65535.\<close>

definition port_ok :: "string \<Rightarrow> bool" where
  "port_ok p = (list_all ascii_digit p \<and> (p = [] \<or> decimal 0 p \<le> 65535))"

text \<open>Host parser for a scheme that is not special: an IPv6 literal in brackets, or an
  opaque host, which fails on a forbidden host code point. \<open>ipv6\<close> is the platform's
  IPv6 parser, reduced to whether it accepts.\<close>

definition host_ok :: "(string \<Rightarrow> bool) \<Rightarrow> string \<Rightarrow> bool" where
  "host_ok ipv6 h =
     (case h of
        [] \<Rightarrow> True
      | c # cs \<Rightarrow>
          if c = CHR ''['' then last h = CHR '']'' \<and> ipv6 (butlast cs)
          else list_all (\<lambda>c. \<not> forbidden_host_code_point c) h)"

text \<open>Host state: the buffer grows until a colon outside square brackets, which starts
  the port. The result is the host buffer and, after such a colon, the rest.\<close>

fun host_state :: "bool \<Rightarrow> string \<Rightarrow> string \<Rightarrow> string \<times> string option" where
  "host_state inside buf [] = (buf, None)"
| "host_state inside buf (c # cs) =
     (if c = CHR '':'' \<and> \<not> inside then (buf, Some cs)
      else host_state (if c = CHR ''['' then True else if c = CHR '']'' then False else inside)
             (buf @ [c]) cs)"

text \<open>Authority state: the host starts after the last \<open>@\<close>; credentials followed by
  nothing are a failure.\<close>

definition after_last_at :: "string \<Rightarrow> string" where
  "after_last_at a = rev (takeWhile (\<lambda>c. c \<noteq> CHR ''@'') (rev a))"

definition authority_ok :: "(string \<Rightarrow> bool) \<Rightarrow> string \<Rightarrow> bool" where
  "authority_ok ipv6 a =
     (let h = after_last_at a in
      if CHR ''@'' \<in> set a \<and> h = [] then False
      else case host_state False [] h of
             (buf, None) \<Rightarrow> host_ok ipv6 buf
           | (buf, Some p) \<Rightarrow> buf \<noteq> [] \<and> host_ok ipv6 buf \<and> port_ok p)"

subsection \<open>Percent-encoding of the query\<close>

definition hex_digit :: "nat \<Rightarrow> char" where
  "hex_digit n = (''0123456789ABCDEF'' ! (n mod 16))"

definition percent_encode_byte :: "char \<Rightarrow> string" where
  "percent_encode_byte c =
     [CHR ''%'', hex_digit ((of_char c :: nat) div 16), hex_digit ((of_char c :: nat) mod 16)]"

text \<open>The query percent-encode set: C0 controls, everything above \<open>~\<close>, space, \<open>"\<close>,
  \<open>#\<close>, \<open><\<close> and \<open>>\<close>.\<close>

definition in_query_percent_encode_set :: "char \<Rightarrow> bool" where
  "in_query_percent_encode_set c =
     ((of_char c :: nat) \<le> 31 \<or> (of_char c :: nat) > 126
      \<or> (of_char c :: nat) \<in> {32, 34, 35, 60, 62})"

definition percent_encode_query :: "string \<Rightarrow> string" where
  "percent_encode_query q =
     concat (map (\<lambda>c. if in_query_percent_encode_set c then percent_encode_byte c else [c]) q)"

subsection \<open>The \<open>application/x-www-form-urlencoded\<close> parser behind \<open>searchParams\<close>\<close>

fun split_on :: "char \<Rightarrow> string \<Rightarrow> string \<Rightarrow> string list" where
  "split_on d cur [] = [cur]"
| "split_on d cur (c # cs) =
     (if c = d then cur # split_on d [] cs else split_on d (cur @ [c]) cs)"

definition hex_value :: "char \<Rightarrow> nat option" where
  "hex_value c =
     (let n = (of_char c :: nat) in
      if 48 \<le> n \<and> n \<le> 57 then Some (n - 48)
      else if 65 \<le> n \<and> n \<le> 70 then Some (n - 55)
      else if 97 \<le> n \<and> n \<le> 102 then Some (n - 87)
      else None)"

fun percent_decode :: "string \<Rightarrow> string" where
  "percent_decode (c # h # l # cs) =
     (if c = CHR ''%'' then
        (case (hex_value h, hex_value l) of
           (Some a, Some b) \<Rightarrow> char_of (16 * a + b) # percent_decode cs
         | _ \<Rightarrow> c # percent_decode (h # l # cs))
      else c # percent_decode (h # l # cs))"
| "percent_decode cs = cs"

text \<open>UTF-8 decoding with replacement, on the byte representation: a well-formed
  sequence is kept, every ill-formed part becomes U+FFFD (bytes EF BF BD). \<open>need\<close> is
  the number of continuation bytes still expected, \<open>lo\<close> and \<open>hi\<close> bound the next one,
  \<open>seen\<close> holds the bytes of the sequence so far.\<close>

definition replacement_character :: string where
  "replacement_character = [char_of (239::nat), char_of (191::nat), char_of (189::nat)]"

function utf8_decode :: "nat \<Rightarrow> nat \<Rightarrow> nat \<Rightarrow> string \<Rightarrow> string \<Rightarrow> string" where
  "utf8_decode need lo hi seen [] = (if need = 0 then [] else replacement_character)"
| "utf8_decode need lo hi seen (b # bs) =
     (let v = (of_char b :: nat) in
      if need = 0 then
        if v \<le> 127 then b # utf8_decode 0 128 191 [] bs
        else if 194 \<le> v \<and> v \<le> 223 then utf8_decode 1 128 191 [b] bs
        else if 224 \<le> v \<and> v \<le> 239 then
          utf8_decode 2 (if v = 224 then 160 else 128) (if v = 237 then 159 else 191) [b] bs
        else if 240 \<le> v \<and> v \<le> 244 then
          utf8_decode 3 (if v = 240 then 144 else 128) (if v = 244 then 143 else 191) [b] bs
        else replacement_character @ utf8_decode 0 128 191 [] bs
      else if v < lo \<or> hi < v then
        replacement_character @ utf8_decode 0 128 191 [] (b # bs)
      else if need = 1 then seen @ [b] @ utf8_decode 0 128 191 [] bs
      else utf8_decode (need - 1) 128 191 (seen @ [b]) bs)"
  by pat_completeness auto
termination
  by (relation "measures [\<lambda>(need, lo, hi, seen, bs). length bs,
                          \<lambda>(need, lo, hi, seen, bs). need]") auto

definition plus_to_space :: "string \<Rightarrow> string" where
  "plus_to_space s = map (\<lambda>c. if c = CHR ''+'' then CHR '' '' else c) s"

definition urlencoded_string :: "string \<Rightarrow> string" where
  "urlencoded_string s = utf8_decode 0 128 191 [] (percent_decode (plus_to_space s))"

definition urlencoded_pair :: "string \<Rightarrow> string \<times> string" where
  "urlencoded_pair bytes =
     (urlencoded_string (takeWhile (\<lambda>c. c \<noteq> CHR ''='') bytes),
      urlencoded_string (drop 1 (dropWhile (\<lambda>c. c \<noteq> CHR ''='') bytes)))"

definition urlencoded_parse :: "string \<Rightarrow> (string \<times> string) list" where
  "urlencoded_parse q =
     map urlencoded_pair (filter (\<lambda>bytes. bytes \<noteq> []) (split_on (CHR ''&'') [] q))"

subsection \<open>The URL object\<close>

record URL =
  query :: "string option"   \<comment> \<open>the URL record's query: null, or the encoded query\<close>

definition not_delim :: "string \<Rightarrow> char \<Rightarrow> bool" where
  "not_delim ds c = (c \<notin> set ds)"

text \<open>\<open>new URL('mailto://' + s)\<close>.\<close>

definition new_URL :: "(string \<Rightarrow> bool) \<Rightarrow> string \<Rightarrow> exn + URL" where
  "new_URL ipv6 s =
     (let r = clean_input s;
          front = takeWhile (not_delim ''?#'') r;
          rest = dropWhile (not_delim ''?#'') r
      in if \<not> authority_ok ipv6 (takeWhile (not_delim ''/'') front) then Inl InvalidURL
         else Inr \<lparr>query =
                (case rest of
                   [] \<Rightarrow> None
                 | c # cs \<Rightarrow>
                     if c = CHR ''?''
                     then Some (percent_encode_query (takeWhile (not_delim ''#'') cs))
                     else None)\<rparr>)"

text \<open>The \<open>search\<close> getter: empty for a null or empty query.\<close>

definition search :: "URL \<Rightarrow> string" where
  "search u = (case query u of None \<Rightarrow> [] | Some q \<Rightarrow> if q = [] then [] else CHR ''?'' # q)"

text \<open>\<open>searchParams.get(name)\<close>: the value of the first pair with that name, or null.\<close>

definition searchParams_get :: "URL \<Rightarrow> string \<Rightarrow> string option" where
  "searchParams_get u nm =
     map_of (urlencoded_parse (case query u of None \<Rightarrow> [] | Some q \<Rightarrow> q)) nm"

section \<open>The unsubscribe-address parser\<close>

record ParsedMailTo =
  to :: string
  subject :: string

text \<open>\<open>parseUnsubscribeMailTo\<close>. \<open>x || 'Unsubscribe'\<close> takes the default for null
  and for the empty string; \<open>!to\<close> holds for the empty string.\<close>

definition parseUnsubscribeMailTo :: "(string \<Rightarrow> bool) \<Rightarrow> string \<Rightarrow> exn + ParsedMailTo" where
  "parseUnsubscribeMailTo ipv6 unsubscribeMailTo =
     (case new_URL ipv6 unsubscribeMailTo of
        Inl e \<Rightarrow> Inl e
      | Inr parsed \<Rightarrow>
          let subject = (case searchParams_get parsed ''subject'' of
                           None \<Rightarrow> ''Unsubscribe''
                         | Some v \<Rightarrow> if v = [] then ''Unsubscribe'' else v);
              to = replace unsubscribeMailTo (search parsed) []
          in if to = [] \<or> \<not> str_includes to (CHR ''@'')
             then Inl (InvalidAddress unsubscribeMailTo)
             else Inr \<lparr>to = to, subject = subject\<rparr>)"

section \<open>Entities, the store and the collaborators\<close>

text \<open>Modelled from the spec: the enums \<open>SubscriptionType\<close> and \<open>SubscriptionStatus\<close>
  of the generated GraphQL types are not among the sources; the spec's data model gives
  \<open>type\<close> the values Newsletter and Rss and \<open>status\<close> the values Active and
  Unsubscribed.\<close>

datatype SubscriptionType = Newsletter | Rss

datatype SubscriptionStatus = Active | Unsubscribed

record NewsletterEmail =
  ne_id :: string
  address :: string
  ne_user :: "string option"   \<comment> \<open>\<open>user.id\<close>; \<open>None\<close> when the relation is not loaded\<close>

text \<open>A subscription row. \<open>newsletterEmailId\<close> is the foreign key; \<open>newsletterEmail\<close>
  is the relation object, present only on an entity loaded with that relation.\<close>

record Subscription =
  sub_id :: string
  name :: string
  sub_type :: SubscriptionType
  status :: SubscriptionStatus
  unsubscribeMailTo :: "string option"
  unsubscribeHttpUrl :: "string option"
  icon :: "string option"
  lastFetchedAt :: "nat option"
  user :: string
  newsletterEmailId :: "string option"
  newsletterEmail :: "NewsletterEmail option"

text \<open>The object given to \<open>update\<close>: an absent or \<open>undefined\<close> property is \<open>None\<close> and
  leaves the column as it is.\<close>

record SubscriptionPatch =
  patch_status :: "SubscriptionStatus option"
  patch_unsubscribeHttpUrl :: "string option"
  patch_unsubscribeMailTo :: "string option"
  patch_icon :: "string option"
  patch_lastFetchedAt :: "nat option"

text \<open>The object given to \<open>save\<close>: no id, so the store inserts a row; a property that
  is not given takes the column's default.\<close>

record SubscriptionDraft =
  draft_name :: string
  draft_newsletterEmailId :: string
  draft_user :: string
  draft_type :: "SubscriptionType option"
  draft_status :: "SubscriptionStatus option"
  draft_unsubscribeHttpUrl :: "string option"
  draft_unsubscribeMailTo :: "string option"
  draft_icon :: "string option"
  draft_lastFetchedAt :: "nat option"

datatype mail = Mail (mail_to: string) (mail_subject: string) (mail_text: string) (mail_from: string)

datatype handler = SubscribeHandler | AxiosEssentialsHandler | MorningBrewHandler
  | MilkRoadHandler | MoneyStuffHandler

datatype repo_op =
    FindOneSubscription string string SubscriptionType   \<comment> \<open>name, user id, type\<close>
  | UpdateSubscription string SubscriptionPatch
  | SaveSubscription SubscriptionDraft
  | DeleteSubscription string
  | FindSubscriptions string string                      \<comment> \<open>user id, newsletter email id\<close>
  | FindOneNewsletterEmail string                        \<comment> \<open>user id\<close>

text \<open>Everything the service does to the outside is recorded, in order.\<close>

datatype event =
    Repo repo_op
  | SendEmail mail
  | AxiosGet string nat          \<comment> \<open>url, timeout in ms\<close>
  | AxiosSend handler string     \<comment> \<open>the provider's POST or PUT, for an address\<close>
  | CreateNewsletterEmail string
  | Log string

record world =
  subscriptions :: "Subscription list"
  newsletter_emails :: "NewsletterEmail list"
  trace :: "event list"

text \<open>The collaborators. Each may depend on everything that happened so far. A store
  call, a send or a request either completes or raises.\<close>

record env =
  ipv6_parser :: "string \<Rightarrow> bool"
  sendEmail :: "world \<Rightarrow> mail \<Rightarrow> exn + bool"
  axios_get :: "world \<Rightarrow> string \<Rightarrow> nat \<Rightarrow> exn option"
  axios_send :: "world \<Rightarrow> handler \<Rightarrow> string \<Rightarrow> exn option"
  repo_fault :: "world \<Rightarrow> repo_op \<Rightarrow> exn option"
  generated_id :: "world \<Rightarrow> string"
  now :: "world \<Rightarrow> nat"
  default_type :: SubscriptionType
  createNewsletterEmail :: "world \<Rightarrow> string \<Rightarrow> exn + NewsletterEmail"

subsection \<open>Asynchronous code as state passing with errors\<close>

type_synonym 'a io = "world \<Rightarrow> (exn + 'a) \<times> world"

definition return :: "'a \<Rightarrow> 'a io" where
  "return x w = (Inr x, w)"

definition throw :: "exn \<Rightarrow> 'a io" where
  "throw e w = (Inl e, w)"

text \<open>\<open>const x = await m; ...\<close>\<close>

definition bind :: "'a io \<Rightarrow> ('a \<Rightarrow> 'b io) \<Rightarrow> 'b io" where
  "bind m f w = (case m w of (Inl e, w') \<Rightarrow> (Inl e, w') | (Inr x, w') \<Rightarrow> f x w')"

text \<open>\<open>try { body } catch (error) { handler }\<close>, for a body whose promises are awaited.\<close>

definition try_catch :: "'a io \<Rightarrow> (exn \<Rightarrow> 'a io) \<Rightarrow> 'a io" where
  "try_catch body handler w =
     (case body w of (Inl e, w') \<Rightarrow> handler e w' | (Inr x, w') \<Rightarrow> (Inr x, w'))"

definition emit :: "event \<Rightarrow> world \<Rightarrow> world" where
  "emit e w = w\<lparr>trace := trace w @ [e]\<rparr>"

text \<open>\<open>logger.info\<close> never raises.\<close>

definition logger_info :: "string \<Rightarrow> unit io" where
  "logger_info msg w = (Inr (), emit (Log msg) w)"

subsection \<open>The repositories\<close>

text \<open>A store call is recorded, then either raises or runs on the tables.\<close>

definition repository :: "env \<Rightarrow> repo_op \<Rightarrow> (world \<Rightarrow> 'a \<times> world) \<Rightarrow> 'a io" where
  "repository E op run w =
     (case repo_fault E w op of
        Some e \<Rightarrow> (Inl e, emit (Repo op) w)
      | None \<Rightarrow> (case run (emit (Repo op) w) of (x, w') \<Rightarrow> (Inr x, w')))"

definition Subscription_findOneBy ::
  "env \<Rightarrow> string \<Rightarrow> string \<Rightarrow> SubscriptionType \<Rightarrow> Subscription option io" where
  "Subscription_findOneBy E nm uid ty =
     repository E (FindOneSubscription nm uid ty)
       (\<lambda>w. (find (\<lambda>s. name s = nm \<and> user s = uid \<and> sub_type s = ty) (subscriptions w), w))"

definition apply_patch :: "SubscriptionPatch \<Rightarrow> Subscription \<Rightarrow> Subscription" where
  "apply_patch p s =
     s\<lparr>status := (case patch_status p of None \<Rightarrow> status s | Some v \<Rightarrow> v),
       unsubscribeHttpUrl :=
         (case patch_unsubscribeHttpUrl p of None \<Rightarrow> unsubscribeHttpUrl s | Some v \<Rightarrow> Some v),
       unsubscribeMailTo :=
         (case patch_unsubscribeMailTo p of None \<Rightarrow> unsubscribeMailTo s | Some v \<Rightarrow> Some v),
       icon := (case patch_icon p of None \<Rightarrow> icon s | Some v \<Rightarrow> Some v),
       lastFetchedAt :=
         (case patch_lastFetchedAt p of None \<Rightarrow> lastFetchedAt s | Some v \<Rightarrow> Some v)\<rparr>"

definition Subscription_update :: "env \<Rightarrow> string \<Rightarrow> SubscriptionPatch \<Rightarrow> unit io" where
  "Subscription_update E i p =
     repository E (UpdateSubscription i p)
       (\<lambda>w. ((), w\<lparr>subscriptions :=
                      map (\<lambda>s. if sub_id s = i then apply_patch p s else s) (subscriptions w)\<rparr>))"

definition Subscription_delete :: "env \<Rightarrow> string \<Rightarrow> unit io" where
  "Subscription_delete E i =
     repository E (DeleteSubscription i)
       (\<lambda>w. ((), w\<lparr>subscriptions := filter (\<lambda>s. sub_id s \<noteq> i) (subscriptions w)\<rparr>))"

text \<open>Modelled from the spec: the Subscription entity declaration, which holds the
  column defaults, is not among the sources; the spec says a row inserted without a
  status is Active. The default of \<open>type\<close> is a parameter (\<^const>\<open>default_type\<close>).\<close>

definition default_status :: SubscriptionStatus where
  "default_status = Active"

definition new_row :: "string \<Rightarrow> SubscriptionType \<Rightarrow> SubscriptionDraft \<Rightarrow> Subscription" where
  "new_row i ty d =
     \<lparr>sub_id = i, name = draft_name d,
      sub_type = (case draft_type d of None \<Rightarrow> ty | Some t \<Rightarrow> t),
      status = (case draft_status d of None \<Rightarrow> default_status | Some v \<Rightarrow> v),
      unsubscribeMailTo = draft_unsubscribeMailTo d,
      unsubscribeHttpUrl = draft_unsubscribeHttpUrl d,
      icon = draft_icon d, lastFetchedAt = draft_lastFetchedAt d,
      user = draft_user d, newsletterEmailId = Some (draft_newsletterEmailId d),
      newsletterEmail = None\<rparr>"

definition Subscription_save :: "env \<Rightarrow> SubscriptionDraft \<Rightarrow> Subscription io" where
  "Subscription_save E d =
     repository E (SaveSubscription d)
       (\<lambda>w. let row = new_row (generated_id E w) (default_type E) d
             in (row, w\<lparr>subscriptions := subscriptions w @ [row]\<rparr>))"

text \<open>\<open>find\<close> with \<open>where: {user: {id}, newsletterEmail: {id}}\<close> and
  \<open>relations: ['newsletterEmail']\<close>: the rows of that user bound to that address, each
  with the address row joined in.\<close>

definition Subscription_find :: "env \<Rightarrow> string \<Rightarrow> string \<Rightarrow> Subscription list io" where
  "Subscription_find E uid nid =
     repository E (FindSubscriptions uid nid)
       (\<lambda>w. (case find (\<lambda>n. ne_id n = nid) (newsletter_emails w) of
                None \<Rightarrow> []
              | Some n \<Rightarrow>
                  map (\<lambda>s. s\<lparr>newsletterEmail := Some n\<rparr>)
                    (filter (\<lambda>s. user s = uid \<and> newsletterEmailId s = Some nid)
                       (subscriptions w)), w))"

definition NewsletterEmail_findOneBy :: "env \<Rightarrow> string \<Rightarrow> NewsletterEmail option io" where
  "NewsletterEmail_findOneBy E uid =
     repository E (FindOneNewsletterEmail uid)
       (\<lambda>w. (find (\<lambda>n. ne_user n = Some uid) (newsletter_emails w), w))"

section \<open>The unsubscribe executors\<close>

definition UNSUBSCRIBE_EMAIL_TEXT :: string where
  "UNSUBSCRIBE_EMAIL_TEXT = ''This message was automatically generated by Omnivore.''"

definition sendEmail_call :: "env \<Rightarrow> mail \<Rightarrow> bool io" where
  "sendEmail_call E m w = (sendEmail E w m, emit (SendEmail m) w)"

definition sendUnsubscribeEmail :: "env \<Rightarrow> string \<Rightarrow> string \<Rightarrow> bool io" where
  "sendUnsubscribeEmail E mailTo from_address =
     try_catch
       (case parseUnsubscribeMailTo (ipv6_parser E) mailTo of
          Inl e \<Rightarrow> throw e
        | Inr parsed \<Rightarrow>
            bind (sendEmail_call E
                    (Mail (to parsed) (subject parsed) UNSUBSCRIBE_EMAIL_TEXT
                       from_address))
              (\<lambda>sent. if \<not> sent
                       then bind (logger_info ''Failed to send unsubscribe email'')
                              (\<lambda>_. return False)
                       else return True))
       (\<lambda>error. bind (logger_info ''Failed to send unsubscribe email'') (\<lambda>_. return False))"

definition axios_get_call :: "env \<Rightarrow> string \<Rightarrow> nat \<Rightarrow> unit io" where
  "axios_get_call E url timeout w =
     (case axios_get E w url timeout of Some e \<Rightarrow> Inl e | None \<Rightarrow> Inr (),
      emit (AxiosGet url timeout) w)"

definition sendUnsubscribeHttpRequest :: "env \<Rightarrow> string \<Rightarrow> bool io" where
  "sendUnsubscribeHttpRequest E url =
     try_catch
       (bind (axios_get_call E url 5000) (\<lambda>_. return True))
       (\<lambda>error. bind (logger_info ''Failed to send unsubscribe http request'')
                   (\<lambda>_. return False))"

section \<open>The unsubscribe orchestrator\<close>

text \<open>\<open>subscription.unsubscribeMailTo && subscription.newsletterEmail\<close> is falsy for an
  absent or empty \<open>unsubscribeMailTo\<close> and for an absent relation. The early \<open>return\<close>
  of the update leaves the function before the delete.\<close>

definition unsubscribed_status :: SubscriptionPatch where
  "unsubscribed_status =
     \<lparr>patch_status = Some Unsubscribed, patch_unsubscribeHttpUrl = None,
      patch_unsubscribeMailTo = None, patch_icon = None, patch_lastFetchedAt = None\<rparr>"

definition unsubscribe :: "env \<Rightarrow> Subscription \<Rightarrow> unit io" where
  "unsubscribe E subscription =
     (if sub_type subscription = Newsletter then
        bind (case (unsubscribeMailTo subscription, newsletterEmail subscription) of
                (Some m, Some ne) \<Rightarrow>
                  if m \<noteq> [] then sendUnsubscribeEmail E m (address ne) else return False
              | _ \<Rightarrow> return False)
          (\<lambda>unsubscribed.
             if \<not> unsubscribed then
               bind (logger_info ''Failed to unsubscribe'')
                 (\<lambda>_. Subscription_update E (sub_id subscription) unsubscribed_status)
             else Subscription_delete E (sub_id subscription))
      else Subscription_delete E (sub_id subscription))"

section \<open>The bulk unsubscribe orchestrator\<close>

text \<open>\<open>for await (const x of xs) { body }\<close> over an array: one item after the other.\<close>

fun for_each :: "'a list \<Rightarrow> ('a \<Rightarrow> unit io) \<Rightarrow> unit io" where
  "for_each [] body = return ()"
| "for_each (x # xs) body = bind (body x) (\<lambda>_. for_each xs body)"

text \<open>Reading \<open>newsletterEmail.user.id\<close> raises inside the outer try block when the
  user relation is not loaded.\<close>

definition unsubscribeAll :: "env \<Rightarrow> NewsletterEmail \<Rightarrow> unit io" where
  "unsubscribeAll E ne =
     try_catch
       (bind (case ne_user ne of
                None \<Rightarrow> throw TypeError
              | Some uid \<Rightarrow> Subscription_find E uid (ne_id ne))
          (\<lambda>subs. for_each subs
             (\<lambda>subscription.
                try_catch (unsubscribe E subscription)
                  (\<lambda>error. logger_info ''Failed to unsubscribe''))))
       (\<lambda>error. logger_info ''Failed to unsubscribe all'')"

section \<open>The store adapter: lookup and upsert\<close>

definition getSubscriptionByNameAndUserId ::
  "env \<Rightarrow> string \<Rightarrow> string \<Rightarrow> Subscription option io" where
  "getSubscriptionByNameAndUserId E nm userId = Subscription_findOneBy E nm userId Newsletter"

record SaveSubscriptionInput =
  in_userId :: string
  in_name :: string
  in_newsletterEmail :: NewsletterEmail
  in_unsubscribeMailTo :: "string option"
  in_unsubscribeHttpUrl :: "string option"
  in_icon :: "string option"
  in_from :: "string option"

text \<open>The object \<open>subscriptionData\<close>; \<open>new Date()\<close> is read first, from the clock of
  the world the call starts in.\<close>

definition subscriptionData :: "nat \<Rightarrow> SaveSubscriptionInput \<Rightarrow> SubscriptionPatch" where
  "subscriptionData t inp =
     \<lparr>patch_status = None,
      patch_unsubscribeHttpUrl = in_unsubscribeHttpUrl inp,
      patch_unsubscribeMailTo = in_unsubscribeMailTo inp,
      patch_icon = in_icon inp,
      patch_lastFetchedAt = Some t\<rparr>"

definition saveSubscription :: "env \<Rightarrow> SaveSubscriptionInput \<Rightarrow> string io" where
  "saveSubscription E inp w =
     (let d = subscriptionData (now E w) inp in
      bind (getSubscriptionByNameAndUserId E (in_name inp) (in_userId inp))
        (\<lambda>existingSubscription.
           case existingSubscription of
             Some existing \<Rightarrow>
               bind (Subscription_update E (sub_id existing) d)
                 (\<lambda>_. return (sub_id existing))
           | None \<Rightarrow>
               bind (Subscription_save E
                       \<lparr>draft_name = in_name inp,
                        draft_newsletterEmailId = ne_id (in_newsletterEmail inp),
                        draft_user = in_userId inp,
                        draft_type = Some Newsletter,
                        draft_status = None,
                        draft_unsubscribeHttpUrl = patch_unsubscribeHttpUrl d,
                        draft_unsubscribeMailTo = patch_unsubscribeMailTo d,
                        draft_icon = patch_icon d,
                        draft_lastFetchedAt = patch_lastFetchedAt d\<rparr>)
                 (\<lambda>result. return (sub_id result))) w)"

section \<open>The signup handlers\<close>

definition axios_send_call :: "env \<Rightarrow> handler \<Rightarrow> string \<Rightarrow> unit io" where
  "axios_send_call E h email w =
     (case axios_send E w h email of Some e \<Rightarrow> Inl e | None \<Rightarrow> Inr (),
      emit (AxiosSend h email) w)"

text \<open>\<open>_subscribe\<close>: the base class resolves to no names without a request; each
  provider sends its one request (a fixed endpoint and payload with the address filled
  in) and then returns its fixed names.\<close>

fun subscribe :: "env \<Rightarrow> handler \<Rightarrow> string \<Rightarrow> string list io" where
  "subscribe E SubscribeHandler email = return []"
| "subscribe E AxiosEssentialsHandler email =
     bind (axios_send_call E AxiosEssentialsHandler email)
       (\<lambda>_. return [''Axios AM'', ''Axios PM'', ''Axios Finish Line''])"
| "subscribe E MorningBrewHandler email =
     bind (axios_send_call E MorningBrewHandler email) (\<lambda>_. return [''Morning Brew''])"
| "subscribe E MilkRoadHandler email =
     bind (axios_send_call E MilkRoadHandler email) (\<lambda>_. return [''Milk Road''])"
| "subscribe E MoneyStuffHandler email =
     bind (axios_send_call E MoneyStuffHandler email) (\<lambda>_. return [''Money Stuff''])"

text \<open>The external \<open>createNewsletterEmail\<close> provisions an address: on success the new
  row is in the address table.\<close>

definition createNewsletterEmail_call :: "env \<Rightarrow> string \<Rightarrow> NewsletterEmail io" where
  "createNewsletterEmail_call E userId w =
     (case createNewsletterEmail E w userId of
        Inl e \<Rightarrow> (Inl e, emit (CreateNewsletterEmail userId) w)
      | Inr ne \<Rightarrow>
          (Inr ne, (emit (CreateNewsletterEmail userId) w)
                     \<lparr>newsletter_emails := newsletter_emails w @ [ne]\<rparr>))"

text \<open>\<open>Promise.all\<close> over promises that have all been started: every one runs; the
  result is the list of values, or the first rejection.\<close>

fun promise_all :: "'a io list \<Rightarrow> 'a list io" where
  "promise_all [] w = (Inr [], w)"
| "promise_all (p # ps) w =
     (case p w of
        (r, w1) \<Rightarrow>
          (case promise_all ps w1 of
             (rs, w2) \<Rightarrow>
               (case r of
                  Inl e \<Rightarrow> Inl e
                | Inr x \<Rightarrow> (case rs of Inl e \<Rightarrow> Inl e | Inr xs \<Rightarrow> Inr (x # xs)),
                w2)))"

definition handle_draft :: "string \<Rightarrow> NewsletterEmail \<Rightarrow> string \<Rightarrow> SubscriptionDraft" where
  "handle_draft userId ne nm =
     \<lparr>draft_name = nm, draft_newsletterEmailId = ne_id ne, draft_user = userId,
      draft_type = None, draft_status = Some Active,
      draft_unsubscribeHttpUrl = None, draft_unsubscribeMailTo = None,
      draft_icon = None, draft_lastFetchedAt = None\<rparr>"

text \<open>\<open>handleSubscribe\<close>. Inside the try block the function awaits the address lookup
  or provisioning and the provider call. Its last statement is
  \<open>return Promise.all(newSubscriptions)\<close>, with no \<open>await\<close>: the promise leaves the try
  block unsettled, so the block ends with either \<open>null\<close> or the pending saves, and a
  rejection of one of them is the rejection of the caller's promise, past the catch
  clause. The result of the try block is \<open>None\<close> for \<open>null\<close>, or the address row and the
  names to save.\<close>

definition handleSubscribe ::
  "env \<Rightarrow> handler \<Rightarrow> string \<Rightarrow> string \<Rightarrow> Subscription list option io" where
  "handleSubscribe E h userId nm =
     bind
       (try_catch
          (bind (bind (NewsletterEmail_findOneBy E userId)
                   (\<lambda>found. case found of
                               Some ne \<Rightarrow> return ne
                             | None \<Rightarrow> createNewsletterEmail_call E userId))
             (\<lambda>ne. bind (subscribe E h (address ne))
                (\<lambda>subscribedNames.
                   if length subscribedNames = 0
                   then bind (logger_info ''Failed to get subscribe response'')
                          (\<lambda>_. return None)
                   else return (Some (ne, subscribedNames)))))
          (\<lambda>error. bind (logger_info ''Failed to handleSubscribe'') (\<lambda>_. return None)))
       (\<lambda>pending.
          case pending of
            None \<Rightarrow> return None
          | Some (ne, subscribedNames) \<Rightarrow>
              bind (promise_all
                      (map (\<lambda>n. Subscription_save E (handle_draft userId ne n))
                         subscribedNames))
                (\<lambda>rows. return (Some rows)))"

section \<open>Properties of the store and sample worlds\<close>

text \<open>The spec's invariant: (user, name, type) is unique over the subscription rows.\<close>

definition key_of :: "Subscription \<Rightarrow> string \<times> string \<times> SubscriptionType" where
  "key_of s = (user s, name s, sub_type s)"

definition unique_keys :: "world \<Rightarrow> bool" where
  "unique_keys w = distinct (map key_of (subscriptions w))"


text \<open>What a call added to the trace.\<close>

definition emitted :: "world \<Rightarrow> world \<Rightarrow> event list" where
  "emitted w w' = drop (length (trace w)) (trace w')"

fun is_store_write :: "event \<Rightarrow> bool" where
  "is_store_write (Repo (UpdateSubscription i p)) = True"
| "is_store_write (Repo (DeleteSubscription i)) = True"
| "is_store_write (Repo (SaveSubscription d)) = True"
| "is_store_write e = False"

fun is_send_email :: "event \<Rightarrow> bool" where
  "is_send_email (SendEmail m) = True"
| "is_send_email e = False"

fun is_axios_get :: "event \<Rightarrow> bool" where
  "is_axios_get (AxiosGet url t) = True"
| "is_axios_get e = False"

text \<open>An operation keeps the invariant.\<close>

definition preserves_unique :: "'a io \<Rightarrow> bool" where
  "preserves_unique m = (\<forall>w. unique_keys w \<longrightarrow> unique_keys (snd (m w)))"

text \<open>An operation leaves the subscription rows as they are.\<close>

definition keeps_rows :: "'a io \<Rightarrow> bool" where
  "keeps_rows m = (\<forall>w. subscriptions (snd (m w)) = subscriptions w)"

text \<open>A store that enforces the constraint: it rejects the insert of a row whose
  (user, name, type) is already there.\<close>

definition enforces_unique :: "env \<Rightarrow> bool" where
  "enforces_unique E =
     (\<forall>w d. key_of (new_row [] (default_type E) d) \<in> set (map key_of (subscriptions w))
        \<longrightarrow> repo_fault E w (SaveSubscription d) \<noteq> None)"

text \<open>A sample of such a store.\<close>

definition constraint_fault :: "SubscriptionType \<Rightarrow> world \<Rightarrow> repo_op \<Rightarrow> exn option" where
  "constraint_fault ty w op =
     (case op of
        SaveSubscription d \<Rightarrow>
          if key_of (new_row [] ty d) \<in> set (map key_of (subscriptions w))
          then Some (Thrown ''duplicate key'') else None
      | _ \<Rightarrow> None)"

text \<open>Sample collaborators: everything succeeds; ids are numbered by the rows so far.\<close>

definition fresh_id :: "world \<Rightarrow> string" where
  "fresh_id w = replicate (Suc (length (subscriptions w))) (CHR ''i'')"

definition sample_env :: env where
  "sample_env =
     \<lparr>ipv6_parser = (\<lambda>_. False),
      sendEmail = (\<lambda>w m. Inr True),
      axios_get = (\<lambda>w url t. None),
      axios_send = (\<lambda>w h a. None),
      repo_fault = (\<lambda>w op. None),
      generated_id = fresh_id,
      now = (\<lambda>w. length (trace w)),
      default_type = Newsletter,
      createNewsletterEmail =
        (\<lambda>w uid. Inr \<lparr>ne_id = ''ne-new'', address = ''new@inbox.example'', ne_user = Some uid\<rparr>)\<rparr>"

text \<open>The same, with a mail service that refuses and an HTTP client that times out.\<close>

definition failing_env :: env where
  "failing_env =
     sample_env\<lparr>sendEmail := (\<lambda>w m. Inr False),
                axios_get := (\<lambda>w url t. Some (Thrown ''timeout of 5000ms exceeded''))\<rparr>"

text \<open>The same as \<^const>\<open>sample_env\<close>, with a store that rejects every insert.\<close>

definition rejecting_env :: env where
  "rejecting_env =
     sample_env\<lparr>repo_fault :=
       (\<lambda>w op. case op of
                  SaveSubscription d \<Rightarrow> Some (Thrown ''duplicate key'')
                | _ \<Rightarrow> None)\<rparr>"

text \<open>The same as \<^const>\<open>sample_env\<close>, with a store that enforces the constraint.\<close>

definition strict_env :: env where
  "strict_env = sample_env\<lparr>repo_fault := constraint_fault Newsletter\<rparr>"

definition inbox :: NewsletterEmail where
  "inbox = \<lparr>ne_id = ''ne1'', address = ''u1@inbox.example'', ne_user = Some ''u1''\<rparr>"

definition sample_newsletter :: Subscription where
  "sample_newsletter =
     \<lparr>sub_id = ''s1'', name = ''Weekly'', sub_type = Newsletter, status = Active,
      unsubscribeMailTo = Some ''leave@weekly.example?subject=Bye'',
      unsubscribeHttpUrl = Some ''https://weekly.example/leave'',
      icon = None, lastFetchedAt = None, user = ''u1'',
      newsletterEmailId = Some ''ne1'', newsletterEmail = Some inbox\<rparr>"

definition sample_rss :: Subscription where
  "sample_rss =
     sample_newsletter\<lparr>sub_id := ''s2'', name := ''Feed'', sub_type := Rss,
       unsubscribeMailTo := None, newsletterEmailId := None, newsletterEmail := None\<rparr>"

definition sample_world :: world where
  "sample_world =
     \<lparr>subscriptions = [sample_newsletter\<lparr>newsletterEmail := None\<rparr>, sample_rss],
      newsletter_emails = [inbox], trace = []\<rparr>"

definition empty_world :: world where
  "empty_world = \<lparr>subscriptions = [], newsletter_emails = [inbox], trace = []\<rparr>"

definition sample_input :: SaveSubscriptionInput where
  "sample_input =
     \<lparr>in_userId = ''u1'', in_name = ''Daily'', in_newsletterEmail = inbox,
      in_unsubscribeMailTo = Some ''leave@daily.example'', in_unsubscribeHttpUrl = None,
      in_icon = None, in_from = None\<rparr>"

text \<open>The store write that processing one subscription issues: the delete of its row
  or the update of its status.\<close>

definition one_write :: "Subscription \<Rightarrow> event \<Rightarrow> bool" where
  "one_write s e =
     (e = Repo (DeleteSubscription (sub_id s))
      \<or> e = Repo (UpdateSubscription (sub_id s) unsubscribed_status))"

text \<open>A store that loses the connection on the delete of row \<open>s1\<close>, and a world with
  two newsletters bound to the same address.\<close>

definition flaky_env :: env where
  "flaky_env =
     sample_env\<lparr>repo_fault :=
       (\<lambda>w op. case op of
                  DeleteSubscription i \<Rightarrow>
                    if i = ''s1'' then Some (Thrown ''connection lost'') else None
                | _ \<Rightarrow> None)\<rparr>"

definition bulk_world :: world where
  "bulk_world =
     \<lparr>subscriptions =
        [sample_newsletter\<lparr>newsletterEmail := None\<rparr>,
         sample_newsletter\<lparr>sub_id := ''s3'', name := ''Monthly'', newsletterEmail := None\<rparr>],
      newsletter_emails = [inbox], trace = []\<rparr>"

text \<open>The store events that read, rewrite or remove a subscription row: the lookups,
  the update and the delete. The insert and the address lookup are not among them.\<close>

fun is_row_access :: "event \<Rightarrow> bool" where
  "is_row_access (Repo (FindOneSubscription nm uid ty)) = True"
| "is_row_access (Repo (FindSubscriptions uid nid)) = True"
| "is_row_access (Repo (UpdateSubscription i p)) = True"
| "is_row_access (Repo (DeleteSubscription i)) = True"
| "is_row_access e = False"

text \<open>A computation that issues none of them, from whatever world it starts.\<close>

definition no_row_access :: "'a io \<Rightarrow> bool" where
  "no_row_access m =
     (\<forall>w. \<exists>evs. trace (snd (m w)) = trace w @ evs \<and> filter is_row_access evs = [])"

section \<open>Lemmas on the executors and the store calls\<close>

lemmas io_defs = bind_def return_def throw_def try_catch_def logger_info_def

lemma emitted_append: "trace w' = trace w @ evs \<Longrightarrow> emitted w w' = evs"
  by (simp add: emitted_def)

lemma apply_unsubscribed_status [simp]:
  "apply_patch unsubscribed_status x = x\<lparr>status := Unsubscribed\<rparr>"
  by (simp add: apply_patch_def unsubscribed_status_def)

lemma sendUnsubscribeEmail_eq:
  "sendUnsubscribeEmail E m a w =
     (case parseUnsubscribeMailTo (ipv6_parser E) m of
        Inl e \<Rightarrow> (Inr False, emit (Log ''Failed to send unsubscribe email'') w)
      | Inr p \<Rightarrow>
          if sendEmail E w (Mail (to p) (subject p) UNSUBSCRIBE_EMAIL_TEXT a) = Inr True
          then (Inr True, emit (SendEmail (Mail (to p) (subject p) UNSUBSCRIBE_EMAIL_TEXT a)) w)
          else (Inr False, emit (Log ''Failed to send unsubscribe email'')
                 (emit (SendEmail (Mail (to p) (subject p) UNSUBSCRIBE_EMAIL_TEXT a)) w)))"
  by (auto simp: sendUnsubscribeEmail_def sendEmail_call_def io_defs split: sum.splits)

lemma sendUnsubscribeHttpRequest_eq:
  "sendUnsubscribeHttpRequest E url w =
     (if axios_get E w url 5000 = None then (Inr True, emit (AxiosGet url 5000) w)
      else (Inr False, emit (Log ''Failed to send unsubscribe http request'')
              (emit (AxiosGet url 5000) w)))"
  by (auto simp: sendUnsubscribeHttpRequest_def axios_get_call_def io_defs split: option.splits)

text \<open>What the email executor leaves behind: a boolean, the tables untouched, and
  events that are neither store writes nor HTTP requests.\<close>

lemma sendUnsubscribeEmail_effect:
  "\<exists>b evs. sendUnsubscribeEmail E m a w = (Inr b, w\<lparr>trace := trace w @ evs\<rparr>)
     \<and> filter is_store_write evs = [] \<and> filter is_axios_get evs = []"
proof (cases "parseUnsubscribeMailTo (ipv6_parser E) m")
  case (Inl e)
  then have "sendUnsubscribeEmail E m a w =
      (Inr False, w\<lparr>trace := trace w @ [Log ''Failed to send unsubscribe email'']\<rparr>)
      \<and> filter is_store_write [Log ''Failed to send unsubscribe email''] = []
      \<and> filter is_axios_get [Log ''Failed to send unsubscribe email''] = []"
    by (simp add: sendUnsubscribeEmail_eq emit_def)
  then show ?thesis by blast
next
  case (Inr p)
  let ?ml = "Mail (to p) (subject p) UNSUBSCRIBE_EMAIL_TEXT a"
  show ?thesis
  proof (cases "sendEmail E w ?ml = Inr True")
    case True
    with Inr have "sendUnsubscribeEmail E m a w =
        (Inr True, w\<lparr>trace := trace w @ [SendEmail ?ml]\<rparr>)
        \<and> filter is_store_write [SendEmail ?ml] = []
        \<and> filter is_axios_get [SendEmail ?ml] = []"
      by (simp add: sendUnsubscribeEmail_eq emit_def)
    then show ?thesis by blast
  next
    case False
    with Inr have "sendUnsubscribeEmail E m a w =
        (Inr False,
         w\<lparr>trace := trace w @ [SendEmail ?ml, Log ''Failed to send unsubscribe email'']\<rparr>)
        \<and> filter is_store_write [SendEmail ?ml, Log ''Failed to send unsubscribe email''] = []
        \<and> filter is_axios_get [SendEmail ?ml, Log ''Failed to send unsubscribe email''] = []"
      by (simp add: sendUnsubscribeEmail_eq emit_def)
    then show ?thesis by blast
  qed
qed

text \<open>A store write: recorded, and applied unless the store raises.\<close>

lemma Subscription_delete_eq:
  "Subscription_delete E i w =
     (case repo_fault E w (DeleteSubscription i) of
        Some e \<Rightarrow> (Inl e, w\<lparr>trace := trace w @ [Repo (DeleteSubscription i)]\<rparr>)
      | None \<Rightarrow> (Inr (), w\<lparr>trace := trace w @ [Repo (DeleteSubscription i)],
                          subscriptions := filter (\<lambda>s. sub_id s \<noteq> i) (subscriptions w)\<rparr>))"
  by (simp add: Subscription_delete_def repository_def emit_def split: option.splits)

lemma Subscription_update_eq:
  "Subscription_update E i p w =
     (case repo_fault E w (UpdateSubscription i p) of
        Some e \<Rightarrow> (Inl e, w\<lparr>trace := trace w @ [Repo (UpdateSubscription i p)]\<rparr>)
      | None \<Rightarrow> (Inr (), w\<lparr>trace := trace w @ [Repo (UpdateSubscription i p)],
                          subscriptions :=
                            map (\<lambda>s. if sub_id s = i then apply_patch p s else s)
                              (subscriptions w)\<rparr>))"
  by (simp add: Subscription_update_def repository_def emit_def split: option.splits)

section \<open>The unsubscribe orchestrator: one store write per call\<close>

text \<open>The attempt step of \<open>unsubscribe\<close>: it yields a boolean, writes nothing to the
  store, requests nothing over HTTP, and does nothing at all without a non-empty
  \<open>unsubscribeMailTo\<close> and a loaded address.\<close>

lemma attempt_step:
  fixes E :: env and s :: Subscription and w :: world
  shows "\<exists>b evs.
     (case (unsubscribeMailTo s, newsletterEmail s) of
        (Some m, Some ne) \<Rightarrow>
          if m \<noteq> [] then sendUnsubscribeEmail E m (address ne) else return False
      | _ \<Rightarrow> return False) w = (Inr b, w\<lparr>trace := trace w @ evs\<rparr>)
     \<and> filter is_store_write evs = [] \<and> filter is_axios_get evs = []
     \<and> (b \<longleftrightarrow> (\<exists>m ne. unsubscribeMailTo s = Some m \<and> m \<noteq> [] \<and> newsletterEmail s = Some ne
                   \<and> fst (sendUnsubscribeEmail E m (address ne) w) = Inr True))
     \<and> ((unsubscribeMailTo s = None \<or> unsubscribeMailTo s = Some [] \<or> newsletterEmail s = None)
          \<longrightarrow> evs = [])"
proof (cases "\<exists>m ne. unsubscribeMailTo s = Some m \<and> m \<noteq> [] \<and> newsletterEmail s = Some ne")
  case True
  then obtain m ne where s: "unsubscribeMailTo s = Some m" "m \<noteq> []" "newsletterEmail s = Some ne"
    by blast
  from sendUnsubscribeEmail_effect [of E m "address ne" w]
  obtain b evs where
    r: "sendUnsubscribeEmail E m (address ne) w = (Inr b, w\<lparr>trace := trace w @ evs\<rparr>)"
      "filter is_store_write evs = []" "filter is_axios_get evs = []"
    by blast
  show ?thesis
    by (rule exI [of _ b], rule exI [of _ evs]) (simp add: s r)
next
  case False
  then have "(case (unsubscribeMailTo s, newsletterEmail s) of
        (Some m, Some ne) \<Rightarrow>
          if m \<noteq> [] then sendUnsubscribeEmail E m (address ne) else return False
      | _ \<Rightarrow> return False) w = (Inr False, w\<lparr>trace := trace w @ []\<rparr>)"
    by (auto simp: return_def split: option.splits)
  with False show ?thesis
    by (intro exI [of _ False] exI [of _ "[]"]) auto
qed

lemma store_step:
  assumes "(if \<not> b then bind (logger_info ''Failed to unsubscribe'')
                         (\<lambda>_. Subscription_update E i unsubscribed_status)
            else Subscription_delete E i) (w\<lparr>trace := trace w @ evs\<rparr>) = (r, w')"
  shows "trace w' = trace w @ evs @
           (if b then [Repo (DeleteSubscription i)]
            else [Log ''Failed to unsubscribe'', Repo (UpdateSubscription i unsubscribed_status)])"
    and "r = Inr () \<Longrightarrow> subscriptions w' =
           (if b then filter (\<lambda>x. sub_id x \<noteq> i) (subscriptions w)
            else map (\<lambda>x. if sub_id x = i then x\<lparr>status := Unsubscribed\<rparr> else x)
                   (subscriptions w))"
  using assms
  by (auto simp add: io_defs Subscription_update_eq Subscription_delete_eq emit_def
        split: option.splits if_splits)

text \<open>Everything a call of \<open>unsubscribe\<close> on a newsletter does, in one statement:
  \<open>b\<close> is the outcome of the attempt and \<open>evs\<close> what the attempt emitted.\<close>

lemma newsletter_run:
  fixes E :: env and s :: Subscription and w :: world
  assumes "sub_type s = Newsletter"
  shows "\<exists>b evs.
      filter is_store_write evs = [] \<and> filter is_axios_get evs = []
    \<and> (b \<longleftrightarrow> (\<exists>m ne. unsubscribeMailTo s = Some m \<and> m \<noteq> [] \<and> newsletterEmail s = Some ne
                  \<and> fst (sendUnsubscribeEmail E m (address ne) w) = Inr True))
    \<and> ((unsubscribeMailTo s = None \<or> unsubscribeMailTo s = Some [] \<or> newsletterEmail s = None)
         \<longrightarrow> evs = [])
    \<and> trace (snd (unsubscribe E s w)) = trace w @ evs @
        (if b then [Repo (DeleteSubscription (sub_id s))]
         else [Log ''Failed to unsubscribe'',
               Repo (UpdateSubscription (sub_id s) unsubscribed_status)])
    \<and> (fst (unsubscribe E s w) = Inr () \<longrightarrow>
         subscriptions (snd (unsubscribe E s w)) =
           (if b then filter (\<lambda>x. sub_id x \<noteq> sub_id s) (subscriptions w)
            else map (\<lambda>x. if sub_id x = sub_id s then x\<lparr>status := Unsubscribed\<rparr> else x)
                   (subscriptions w)))"
proof -
  from attempt_step [where E = E and s = s and w = w] obtain b evs where
    all: "(case (unsubscribeMailTo s, newsletterEmail s) of
        (Some m, Some ne) \<Rightarrow>
          if m \<noteq> [] then sendUnsubscribeEmail E m (address ne) else return False
      | _ \<Rightarrow> return False) w = (Inr b, w\<lparr>trace := trace w @ evs\<rparr>)
     \<and> filter is_store_write evs = [] \<and> filter is_axios_get evs = []
     \<and> (b \<longleftrightarrow> (\<exists>m ne. unsubscribeMailTo s = Some m \<and> m \<noteq> [] \<and> newsletterEmail s = Some ne
                   \<and> fst (sendUnsubscribeEmail E m (address ne) w) = Inr True))
     \<and> ((unsubscribeMailTo s = None \<or> unsubscribeMailTo s = Some [] \<or> newsletterEmail s = None)
          \<longrightarrow> evs = [])"
    by - (elim exE, rule that)
  note att = all [THEN conjunct1]
  note quiet = all [THEN conjunct2, THEN conjunct1]
    all [THEN conjunct2, THEN conjunct2, THEN conjunct1]
  note b = all [THEN conjunct2, THEN conjunct2, THEN conjunct2, THEN conjunct1]
  note idle = all [THEN conjunct2, THEN conjunct2, THEN conjunct2, THEN conjunct2]
  obtain r w' where run: "unsubscribe E s w = (r, w')"
    by (cases "unsubscribe E s w")
  from assms att run have "(if \<not> b then bind (logger_info ''Failed to unsubscribe'')
                         (\<lambda>_. Subscription_update E (sub_id s) unsubscribed_status)
            else Subscription_delete E (sub_id s)) (w\<lparr>trace := trace w @ evs\<rparr>) = (r, w')"
    by (simp add: unsubscribe_def bind_def)
  from store_step [OF this] have
    tr: "trace w' = trace w @ evs @
           (if b then [Repo (DeleteSubscription (sub_id s))]
            else [Log ''Failed to unsubscribe'',
                  Repo (UpdateSubscription (sub_id s) unsubscribed_status)])"
    and rows: "r = Inr () \<longrightarrow> subscriptions w' =
           (if b then filter (\<lambda>x. sub_id x \<noteq> sub_id s) (subscriptions w)
            else map (\<lambda>x. if sub_id x = sub_id s then x\<lparr>status := Unsubscribed\<rparr> else x)
                   (subscriptions w))"
    by simp_all
  show ?thesis
    apply (rule exI [of _ b], rule exI [of _ evs])
    using quiet b idle tr rows unfolding run by simp
qed

lemma unsubscribe_other_type:
  fixes E :: env and s :: Subscription and w :: world
  assumes "sub_type s \<noteq> Newsletter"
  shows "trace (snd (unsubscribe E s w)) = trace w @ [Repo (DeleteSubscription (sub_id s))]"
    and "fst (unsubscribe E s w) = Inr () \<Longrightarrow>
           subscriptions (snd (unsubscribe E s w)) =
             filter (\<lambda>x. sub_id x \<noteq> sub_id s) (subscriptions w)"
  using assms
  by (simp_all add: unsubscribe_def Subscription_delete_eq split: option.splits)

lemma store_outcome:
  assumes "(if \<not> b then bind (logger_info ''Failed to unsubscribe'')
                         (\<lambda>_. Subscription_update E i unsubscribed_status)
            else Subscription_delete E i) (w\<lparr>trace := trace w @ evs\<rparr>) = (r, w')"
  shows "r = (case repo_fault E (w\<lparr>trace := butlast (trace w')\<rparr>)
                     (if b then DeleteSubscription i
                      else UpdateSubscription i unsubscribed_status) of
                None \<Rightarrow> Inr () | Some e \<Rightarrow> Inl e)"
    and "subscriptions w' =
           (if r = Inr () then
              (if b then filter (\<lambda>x. sub_id x \<noteq> i) (subscriptions w)
               else map (\<lambda>x. if sub_id x = i then x\<lparr>status := Unsubscribed\<rparr> else x)
                      (subscriptions w))
            else subscriptions w)"
  using assms
  by (auto simp add: io_defs Subscription_update_eq Subscription_delete_eq emit_def
        butlast_append split: option.splits if_splits)

text \<open>The outcome of \<open>unsubscribe\<close> on a newsletter, by the answer of the store to the
  one write, asked in the world that holds everything emitted before the write.\<close>

lemma newsletter_outcome:
  fixes E :: env and s :: Subscription and w :: world
  assumes "sub_type s = Newsletter"
  shows "fst (unsubscribe E s w) =
           (case repo_fault E (w\<lparr>trace := butlast (trace (snd (unsubscribe E s w)))\<rparr>)
                   (if (\<exists>m ne. unsubscribeMailTo s = Some m \<and> m \<noteq> []
                          \<and> newsletterEmail s = Some ne
                          \<and> fst (sendUnsubscribeEmail E m (address ne) w) = Inr True)
                    then DeleteSubscription (sub_id s)
                    else UpdateSubscription (sub_id s) unsubscribed_status) of
              None \<Rightarrow> Inr () | Some e \<Rightarrow> Inl e)"
    and "subscriptions (snd (unsubscribe E s w)) =
           (if fst (unsubscribe E s w) = Inr () then
              (if (\<exists>m ne. unsubscribeMailTo s = Some m \<and> m \<noteq> []
                     \<and> newsletterEmail s = Some ne
                     \<and> fst (sendUnsubscribeEmail E m (address ne) w) = Inr True)
               then filter (\<lambda>x. sub_id x \<noteq> sub_id s) (subscriptions w)
               else map (\<lambda>x. if sub_id x = sub_id s then x\<lparr>status := Unsubscribed\<rparr> else x)
                      (subscriptions w))
            else subscriptions w)"
proof -
  from attempt_step [where E = E and s = s and w = w] obtain b evs where
    all: "(case (unsubscribeMailTo s, newsletterEmail s) of
        (Some m, Some ne) \<Rightarrow>
          if m \<noteq> [] then sendUnsubscribeEmail E m (address ne) else return False
      | _ \<Rightarrow> return False) w = (Inr b, w\<lparr>trace := trace w @ evs\<rparr>)
     \<and> filter is_store_write evs = [] \<and> filter is_axios_get evs = []
     \<and> (b \<longleftrightarrow> (\<exists>m ne. unsubscribeMailTo s = Some m \<and> m \<noteq> [] \<and> newsletterEmail s = Some ne
                   \<and> fst (sendUnsubscribeEmail E m (address ne) w) = Inr True))
     \<and> ((unsubscribeMailTo s = None \<or> unsubscribeMailTo s = Some [] \<or> newsletterEmail s = None)
          \<longrightarrow> evs = [])"
    by - (elim exE, rule that)
  note att = all [THEN conjunct1]
  note b = all [THEN conjunct2, THEN conjunct2, THEN conjunct2, THEN conjunct1]
  obtain r w' where run: "unsubscribe E s w = (r, w')"
    by (cases "unsubscribe E s w")
  from assms att run have "(if \<not> b then bind (logger_info ''Failed to unsubscribe'')
                         (\<lambda>_. Subscription_update E (sub_id s) unsubscribed_status)
            else Subscription_delete E (sub_id s)) (w\<lparr>trace := trace w @ evs\<rparr>) = (r, w')"
    by (simp add: unsubscribe_def bind_def)
  note out = store_outcome [OF this]
  from out(1) show "fst (unsubscribe E s w) =
           (case repo_fault E (w\<lparr>trace := butlast (trace (snd (unsubscribe E s w)))\<rparr>)
                   (if (\<exists>m ne. unsubscribeMailTo s = Some m \<and> m \<noteq> []
                          \<and> newsletterEmail s = Some ne
                          \<and> fst (sendUnsubscribeEmail E m (address ne) w) = Inr True)
                    then DeleteSubscription (sub_id s)
                    else UpdateSubscription (sub_id s) unsubscribed_status) of
              None \<Rightarrow> Inr () | Some e \<Rightarrow> Inl e)"
    unfolding run b [symmetric] by simp
  from out(2) show "subscriptions (snd (unsubscribe E s w)) =
           (if fst (unsubscribe E s w) = Inr () then
              (if (\<exists>m ne. unsubscribeMailTo s = Some m \<and> m \<noteq> []
                     \<and> newsletterEmail s = Some ne
                     \<and> fst (sendUnsubscribeEmail E m (address ne) w) = Inr True)
               then filter (\<lambda>x. sub_id x \<noteq> sub_id s) (subscriptions w)
               else map (\<lambda>x. if sub_id x = sub_id s then x\<lparr>status := Unsubscribed\<rparr> else x)
                      (subscriptions w))
            else subscriptions w)"
    unfolding run b [symmetric] by simp
qed

lemma other_type_outcome:
  fixes E :: env and s :: Subscription and w :: world
  assumes "sub_type s \<noteq> Newsletter"
  shows "unsubscribe E s w =
           (case repo_fault E w (DeleteSubscription (sub_id s)) of
              None \<Rightarrow> (Inr (), w\<lparr>trace := trace w @ [Repo (DeleteSubscription (sub_id s))],
                          subscriptions := filter (\<lambda>x. sub_id x \<noteq> sub_id s) (subscriptions w)\<rparr>)
            | Some e \<Rightarrow> (Inl e, w\<lparr>trace := trace w @ [Repo (DeleteSubscription (sub_id s))]\<rparr>))"
  using assms by (simp add: unsubscribe_def Subscription_delete_eq)

subsection \<open>Evaluation of the samples\<close>

lemma sample_newsletter_fields:
  "sub_type sample_newsletter = Newsletter"
  "sub_id sample_newsletter = ''s1''"
  "unsubscribeMailTo sample_newsletter = Some ''leave@weekly.example?subject=Bye''"
  "unsubscribeHttpUrl sample_newsletter = Some ''https://weekly.example/leave''"
  "newsletterEmail sample_newsletter = Some inbox"
  "address inbox = ''u1@inbox.example''"
  by (simp_all add: sample_newsletter_def inbox_def)

lemma sample_rss_fields:
  "sub_type sample_rss = Rss"
  "sub_id sample_rss = ''s2''"
  by (simp_all add: sample_rss_def sample_newsletter_def)

lemma sample_parse:
  "parseUnsubscribeMailTo (\<lambda>_. False) ''leave@weekly.example?subject=Bye'' =
     Inr \<lparr>to = ''leave@weekly.example'', subject = ''Bye''\<rparr>"
  by code_simp

lemma sample_send:
  "fst (sendUnsubscribeEmail sample_env ''leave@weekly.example?subject=Bye''
          ''u1@inbox.example'' w) = Inr True"
  "fst (sendUnsubscribeEmail failing_env ''leave@weekly.example?subject=Bye''
          ''u1@inbox.example'' w) = Inr False"
  "fst (sendUnsubscribeEmail flaky_env ''leave@weekly.example?subject=Bye''
          ''u1@inbox.example'' w) = Inr True"
  by (simp_all add: sendUnsubscribeEmail_eq sample_env_def failing_env_def flaky_env_def
        sample_parse)

lemma sample_store:
  "repo_fault sample_env w op = None"
  "repo_fault failing_env w op = None"
  "repo_fault flaky_env w (DeleteSubscription ''s1'') = Some (Thrown ''connection lost'')"
  "repo_fault flaky_env w (DeleteSubscription ''s2'') = None"
  by (simp_all add: sample_env_def failing_env_def flaky_env_def)

lemma sample_rows:
  "map sub_id (subscriptions sample_world) = [''s1'', ''s2'']"
  "map status (subscriptions sample_world) = [Active, Active]"
  "map sub_id (filter (\<lambda>x. sub_id x \<noteq> ''s1'') (subscriptions sample_world)) = [''s2'']"
  "map sub_id (filter (\<lambda>x. sub_id x \<noteq> ''s2'') (subscriptions sample_world)) = [''s1'']"
  "map status (map (\<lambda>x. if sub_id x = ''s1'' then x\<lparr>status := Unsubscribed\<rparr> else x)
     (subscriptions sample_world)) = [Unsubscribed, Active]"
  "map sub_id (map (\<lambda>x. if sub_id x = ''s1'' then x\<lparr>status := Unsubscribed\<rparr> else x)
     (subscriptions sample_world)) = [''s1'', ''s2'']"
  "map (status \<circ> (\<lambda>x. if sub_id x = ''s1'' then x\<lparr>status := Unsubscribed\<rparr> else x))
     (subscriptions sample_world) = [Unsubscribed, Active]"
  "map (sub_id \<circ> (\<lambda>x. if sub_id x = ''s1'' then x\<lparr>status := Unsubscribed\<rparr> else x))
     (subscriptions sample_world) = [''s1'', ''s2'']"
  by (simp_all add: sample_world_def sample_newsletter_def sample_rss_def)

section \<open>Claims on the unsubscribe orchestrator and the executors\<close>

text \<open>
  C1. For a subscription of type Newsletter, \<open>unsubscribe\<close> issues exactly one store
  write. It is the delete of the row when the email executor was tried and returned
  true; otherwise (the executor returned false, or nothing was tried because
  \<open>unsubscribeMailTo\<close> or the address relation is missing) it is the update of the
  status to Unsubscribed. The call returns normally exactly when the store accepts
  that write (asked in the world that holds everything emitted before the write).
  Then the delete has removed the row and left every status alone, or the update has
  changed the status and removed nothing; when the store refuses, the rows are as they
  were.
\<close>

theorem unsubscribe_newsletter:
  fixes E :: env and s :: Subscription and w :: world
  assumes "sub_type s = Newsletter"
  shows "let confirmed =
               (\<exists>m ne. unsubscribeMailTo s = Some m \<and> m \<noteq> [] \<and> newsletterEmail s = Some ne
                  \<and> fst (sendUnsubscribeEmail E m (address ne) w) = Inr True);
             write = (if confirmed then DeleteSubscription (sub_id s)
                      else UpdateSubscription (sub_id s) unsubscribed_status);
             accepted =
               (repo_fault E (w\<lparr>trace := butlast (trace (snd (unsubscribe E s w)))\<rparr>) write
                  = None)
         in filter is_store_write (emitted w (snd (unsubscribe E s w))) = [Repo write]
            \<and> (fst (unsubscribe E s w) = Inr () \<longleftrightarrow> accepted)
            \<and> subscriptions (snd (unsubscribe E s w)) =
                (if accepted then
                   (if confirmed then filter (\<lambda>x. sub_id x \<noteq> sub_id s) (subscriptions w)
                    else map (\<lambda>x. if sub_id x = sub_id s then x\<lparr>status := Unsubscribed\<rparr> else x)
                           (subscriptions w))
                 else subscriptions w)"
proof -
  from newsletter_run [OF assms, where E = E and w = w] obtain b evs where
    all: "filter is_store_write evs = [] \<and> filter is_axios_get evs = []
    \<and> (b \<longleftrightarrow> (\<exists>m ne. unsubscribeMailTo s = Some m \<and> m \<noteq> [] \<and> newsletterEmail s = Some ne
                  \<and> fst (sendUnsubscribeEmail E m (address ne) w) = Inr True))
    \<and> ((unsubscribeMailTo s = None \<or> unsubscribeMailTo s = Some [] \<or> newsletterEmail s = None)
         \<longrightarrow> evs = [])
    \<and> trace (snd (unsubscribe E s w)) = trace w @ evs @
        (if b then [Repo (DeleteSubscription (sub_id s))]
         else [Log ''Failed to unsubscribe'',
               Repo (UpdateSubscription (sub_id s) unsubscribed_status)])
    \<and> (fst (unsubscribe E s w) = Inr () \<longrightarrow>
         subscriptions (snd (unsubscribe E s w)) =
           (if b then filter (\<lambda>x. sub_id x \<noteq> sub_id s) (subscriptions w)
            else map (\<lambda>x. if sub_id x = sub_id s then x\<lparr>status := Unsubscribed\<rparr> else x)
                   (subscriptions w)))"
    by - (elim exE, rule that)
  note quiet = all [THEN conjunct1]
  note b = all [THEN conjunct2, THEN conjunct2, THEN conjunct1]
  note tr = all [THEN conjunct2, THEN conjunct2, THEN conjunct2, THEN conjunct2, THEN conjunct1,
    THEN emitted_append]
  from tr quiet have writes: "filter is_store_write (emitted w (snd (unsubscribe E s w))) =
       [Repo (if b then DeleteSubscription (sub_id s)
              else UpdateSubscription (sub_id s) unsubscribed_status)]"
    by simp
  note out = newsletter_outcome [OF assms, where E = E and w = w, unfolded b [symmetric]]
  have returns: "fst (unsubscribe E s w) = Inr () \<longleftrightarrow>
      repo_fault E (w\<lparr>trace := butlast (trace (snd (unsubscribe E s w)))\<rparr>)
        (if b then DeleteSubscription (sub_id s)
         else UpdateSubscription (sub_id s) unsubscribed_status) = None"
    by (subst out(1)) (simp split: option.splits)
  from out(2) returns have rows: "subscriptions (snd (unsubscribe E s w)) =
      (if repo_fault E (w\<lparr>trace := butlast (trace (snd (unsubscribe E s w)))\<rparr>)
            (if b then DeleteSubscription (sub_id s)
             else UpdateSubscription (sub_id s) unsubscribed_status) = None
       then (if b then filter (\<lambda>x. sub_id x \<noteq> sub_id s) (subscriptions w)
             else map (\<lambda>x. if sub_id x = sub_id s then x\<lparr>status := Unsubscribed\<rparr> else x)
                    (subscriptions w))
       else subscriptions w)"
    by simp
  from writes returns rows show ?thesis
    unfolding Let_def b [symmetric] by (intro conjI)
qed

theorem unsubscribe_newsletter_witness:
  "sub_type sample_newsletter = Newsletter
   \<and> filter is_store_write
       (emitted sample_world (snd (unsubscribe sample_env sample_newsletter sample_world)))
       = [Repo (DeleteSubscription ''s1'')]
   \<and> fst (unsubscribe sample_env sample_newsletter sample_world) = Inr ()
   \<and> map sub_id (subscriptions (snd (unsubscribe sample_env sample_newsletter sample_world)))
       = [''s2'']
   \<and> filter is_store_write
       (emitted sample_world (snd (unsubscribe failing_env sample_newsletter sample_world)))
       = [Repo (UpdateSubscription ''s1'' unsubscribed_status)]
   \<and> fst (unsubscribe failing_env sample_newsletter sample_world) = Inr ()
   \<and> map sub_id (subscriptions (snd (unsubscribe failing_env sample_newsletter sample_world)))
       = [''s1'', ''s2'']
   \<and> map status (subscriptions (snd (unsubscribe failing_env sample_newsletter sample_world)))
       = [Unsubscribed, Active]
   \<and> fst (unsubscribe flaky_env sample_newsletter sample_world) \<noteq> Inr ()
   \<and> subscriptions (snd (unsubscribe flaky_env sample_newsletter sample_world))
       = subscriptions sample_world"
  using unsubscribe_newsletter [where s = sample_newsletter and E = sample_env and w = sample_world]
    unsubscribe_newsletter [where s = sample_newsletter and E = failing_env and w = sample_world]
    unsubscribe_newsletter [where s = sample_newsletter and E = flaky_env and w = sample_world]
  by (simp add: sample_newsletter_fields sample_send sample_store sample_rows Let_def)

text \<open>
  C2. For a subscription whose type is not Newsletter (that is, Rss), \<open>unsubscribe\<close>
  does one thing only: it issues the delete of the row. No email is sent and no HTTP
  request is made. The call returns normally exactly when the store accepts the
  delete, and then the row is gone; when the store refuses, the rows are as they were.
\<close>

theorem unsubscribe_rss:
  fixes E :: env and s :: Subscription and w :: world
  assumes "sub_type s \<noteq> Newsletter"
  shows "sub_type s = Rss
     \<and> emitted w (snd (unsubscribe E s w)) = [Repo (DeleteSubscription (sub_id s))]
     \<and> filter is_send_email (emitted w (snd (unsubscribe E s w))) = []
     \<and> filter is_axios_get (emitted w (snd (unsubscribe E s w))) = []
     \<and> (fst (unsubscribe E s w) = Inr () \<longleftrightarrow>
          repo_fault E w (DeleteSubscription (sub_id s)) = None)
     \<and> subscriptions (snd (unsubscribe E s w)) =
          (if repo_fault E w (DeleteSubscription (sub_id s)) = None
           then filter (\<lambda>x. sub_id x \<noteq> sub_id s) (subscriptions w)
           else subscriptions w)"
proof -
  from assms have "sub_type s = Rss"
    by (cases "sub_type s") simp_all
  then show ?thesis
    using unsubscribe_other_type [OF assms, where E = E and w = w]
    by (auto simp add: emitted_append other_type_outcome [OF assms] split: option.splits)
qed

theorem unsubscribe_rss_witness:
  "sub_type sample_rss \<noteq> Newsletter
   \<and> emitted sample_world (snd (unsubscribe sample_env sample_rss sample_world))
       = [Repo (DeleteSubscription ''s2'')]
   \<and> fst (unsubscribe sample_env sample_rss sample_world) = Inr ()
   \<and> map sub_id (subscriptions (snd (unsubscribe sample_env sample_rss sample_world)))
       = [''s1'']
   \<and> map sub_id (subscriptions sample_world) = [''s1'', ''s2'']"
  using unsubscribe_rss [where s = sample_rss and E = sample_env and w = sample_world]
  by (simp add: sample_rss_fields sample_store sample_rows)

text \<open>
  C8. Neither executor raises: each returns a boolean for every input. The email
  executor returns true exactly when the address parses and the send call reports
  success (false on a parse failure, on a send that reports failure and on a send that
  raises). The HTTP executor issues one GET with a timeout of 5000 ms, and returns true
  exactly when the request completes without raising.
\<close>

theorem executors_return_booleans:
  "fst (sendUnsubscribeEmail E m a w) =
     Inr (case parseUnsubscribeMailTo (ipv6_parser E) m of
            Inl e \<Rightarrow> False
          | Inr p \<Rightarrow> sendEmail E w (Mail (to p) (subject p) UNSUBSCRIBE_EMAIL_TEXT a) = Inr True)
   \<and> fst (sendUnsubscribeHttpRequest E url w) = Inr (axios_get E w url 5000 = None)
   \<and> emitted w (snd (sendUnsubscribeHttpRequest E url w)) =
       AxiosGet url 5000 #
         (if axios_get E w url 5000 = None then []
          else [Log ''Failed to send unsubscribe http request''])"
  by (simp add: sendUnsubscribeEmail_eq sendUnsubscribeHttpRequest_eq emitted_def emit_def
           split: sum.splits)

theorem executors_return_booleans_witness:
  "fst (sendUnsubscribeEmail failing_env ''nodomain'' ''u1@inbox.example'' sample_world) = Inr False
   \<and> fst (sendUnsubscribeHttpRequest failing_env ''https://weekly.example/leave'' sample_world)
       = Inr False
   \<and> fst (sendUnsubscribeHttpRequest sample_env ''https://weekly.example/leave'' sample_world)
       = Inr True"
proof -
  have "parseUnsubscribeMailTo (\<lambda>_. False) ''nodomain'' = Inl (InvalidAddress ''nodomain'')"
    by code_simp
  then show ?thesis
    using executors_return_booleans
        [of failing_env "''nodomain''" "''u1@inbox.example''" sample_world
          "''https://weekly.example/leave''"]
      executors_return_booleans
        [of sample_env "''nodomain''" "''u1@inbox.example''" sample_world
          "''https://weekly.example/leave''"]
    by (simp add: failing_env_def sample_env_def)
qed

text \<open>
  C9. \<open>unsubscribe\<close> never makes an HTTP request, whatever the subscription: whether
  or not \<open>unsubscribeHttpUrl\<close> is set and whether or not the email attempt fails, no GET
  is among the events of the call.
\<close>

theorem unsubscribe_never_http:
  fixes E :: env and s :: Subscription and w :: world
  shows "filter is_axios_get (emitted w (snd (unsubscribe E s w))) = []"
proof (cases "sub_type s = Newsletter")
  case True
  from newsletter_run [OF True, where E = E and w = w] obtain b evs where
    all: "filter is_store_write evs = [] \<and> filter is_axios_get evs = []
    \<and> (b \<longleftrightarrow> (\<exists>m ne. unsubscribeMailTo s = Some m \<and> m \<noteq> [] \<and> newsletterEmail s = Some ne
                  \<and> fst (sendUnsubscribeEmail E m (address ne) w) = Inr True))
    \<and> ((unsubscribeMailTo s = None \<or> unsubscribeMailTo s = Some [] \<or> newsletterEmail s = None)
         \<longrightarrow> evs = [])
    \<and> trace (snd (unsubscribe E s w)) = trace w @ evs @
        (if b then [Repo (DeleteSubscription (sub_id s))]
         else [Log ''Failed to unsubscribe'',
               Repo (UpdateSubscription (sub_id s) unsubscribed_status)])
    \<and> (fst (unsubscribe E s w) = Inr () \<longrightarrow>
         subscriptions (snd (unsubscribe E s w)) =
           (if b then filter (\<lambda>x. sub_id x \<noteq> sub_id s) (subscriptions w)
            else map (\<lambda>x. if sub_id x = sub_id s then x\<lparr>status := Unsubscribed\<rparr> else x)
                   (subscriptions w)))"
    by - (elim exE, rule that)
  note quiet = all [THEN conjunct2, THEN conjunct1]
  note tr = all [THEN conjunct2, THEN conjunct2, THEN conjunct2, THEN conjunct2, THEN conjunct1,
    THEN emitted_append]
  from quiet show ?thesis
    unfolding tr by simp
next
  case False
  then show ?thesis
    by (simp add: unsubscribe_other_type(1) [THEN emitted_append])
qed

theorem unsubscribe_never_http_witness:
  "unsubscribeHttpUrl sample_newsletter = Some ''https://weekly.example/leave''
   \<and> fst (sendUnsubscribeEmail failing_env ''leave@weekly.example?subject=Bye''
            ''u1@inbox.example'' sample_world) = Inr False
   \<and> filter is_axios_get
       (emitted sample_world (snd (unsubscribe failing_env sample_newsletter sample_world))) = []"
  using unsubscribe_never_http [where s = sample_newsletter and E = failing_env and w = sample_world]
  by (simp add: sample_newsletter_fields sample_send)

text \<open>
  C10. For a subscription of type Newsletter with \<open>unsubscribeMailTo\<close> set and the
  address relation absent, \<open>unsubscribe\<close> logs the failure and issues the update of the
  status to Unsubscribed, and nothing else: no email is sent, nothing is deleted. The
  call returns normally exactly when the store accepts the update, and then the row
  has status Unsubscribed and is still there; when the store refuses, the rows are as
  they were.
\<close>

theorem unsubscribe_relation_absent:
  fixes E :: env and s :: Subscription and w :: world
  assumes "sub_type s = Newsletter" and "unsubscribeMailTo s = Some m"
    and "newsletterEmail s = None"
  shows "emitted w (snd (unsubscribe E s w)) =
           [Log ''Failed to unsubscribe'',
            Repo (UpdateSubscription (sub_id s) unsubscribed_status)]
     \<and> filter is_send_email (emitted w (snd (unsubscribe E s w))) = []
     \<and> (fst (unsubscribe E s w) = Inr () \<longleftrightarrow>
          repo_fault E (emit (Log ''Failed to unsubscribe'') w)
            (UpdateSubscription (sub_id s) unsubscribed_status) = None)
     \<and> subscriptions (snd (unsubscribe E s w)) =
          (if repo_fault E (emit (Log ''Failed to unsubscribe'') w)
                (UpdateSubscription (sub_id s) unsubscribed_status) = None
           then map (\<lambda>x. if sub_id x = sub_id s then x\<lparr>status := Unsubscribed\<rparr> else x)
                  (subscriptions w)
           else subscriptions w)"
proof -
  from newsletter_run [OF assms(1), where E = E and w = w] obtain b evs where
    all: "filter is_store_write evs = [] \<and> filter is_axios_get evs = []
    \<and> (b \<longleftrightarrow> (\<exists>m ne. unsubscribeMailTo s = Some m \<and> m \<noteq> [] \<and> newsletterEmail s = Some ne
                  \<and> fst (sendUnsubscribeEmail E m (address ne) w) = Inr True))
    \<and> ((unsubscribeMailTo s = None \<or> unsubscribeMailTo s = Some [] \<or> newsletterEmail s = None)
         \<longrightarrow> evs = [])
    \<and> trace (snd (unsubscribe E s w)) = trace w @ evs @
        (if b then [Repo (DeleteSubscription (sub_id s))]
         else [Log ''Failed to unsubscribe'',
               Repo (UpdateSubscription (sub_id s) unsubscribed_status)])
    \<and> (fst (unsubscribe E s w) = Inr () \<longrightarrow>
         subscriptions (snd (unsubscribe E s w)) =
           (if b then filter (\<lambda>x. sub_id x \<noteq> sub_id s) (subscriptions w)
            else map (\<lambda>x. if sub_id x = sub_id s then x\<lparr>status := Unsubscribed\<rparr> else x)
                   (subscriptions w)))"
    by - (elim exE, rule that)
  note b = all [THEN conjunct2, THEN conjunct2, THEN conjunct1]
  note idle = all [THEN conjunct2, THEN conjunct2, THEN conjunct2, THEN conjunct1]
  note tr = all [THEN conjunct2, THEN conjunct2, THEN conjunct2, THEN conjunct2, THEN conjunct1]
  from b assms(3) have nb: "\<not> b" by simp
  from idle assms(3) have quiet: "evs = []" by simp
  from tr nb quiet have full: "trace (snd (unsubscribe E s w)) =
      trace w @ [Log ''Failed to unsubscribe'',
                 Repo (UpdateSubscription (sub_id s) unsubscribed_status)]"
    by simp
  then have before: "w\<lparr>trace := butlast (trace (snd (unsubscribe E s w)))\<rparr>
      = emit (Log ''Failed to unsubscribe'') w"
    by (simp add: emit_def butlast_append)
  from assms(3) have never: "\<not> (\<exists>m ne. unsubscribeMailTo s = Some m \<and> m \<noteq> []
                          \<and> newsletterEmail s = Some ne
                          \<and> fst (sendUnsubscribeEmail E m (address ne) w) = Inr True)"
    by simp
  note out = newsletter_outcome [OF assms(1), where E = E and w = w, unfolded before
    if_not_P [OF never]]
  from out(1) have returns: "fst (unsubscribe E s w) = Inr () \<longleftrightarrow>
          repo_fault E (emit (Log ''Failed to unsubscribe'') w)
            (UpdateSubscription (sub_id s) unsubscribed_status) = None"
    by (simp split: option.splits)
  from out(2) returns have rows: "subscriptions (snd (unsubscribe E s w)) =
          (if repo_fault E (emit (Log ''Failed to unsubscribe'') w)
                (UpdateSubscription (sub_id s) unsubscribed_status) = None
           then map (\<lambda>x. if sub_id x = sub_id s then x\<lparr>status := Unsubscribed\<rparr> else x)
                  (subscriptions w)
           else subscriptions w)"
    by simp
  from full have ev: "emitted w (snd (unsubscribe E s w)) =
           [Log ''Failed to unsubscribe'',
            Repo (UpdateSubscription (sub_id s) unsubscribed_status)]"
    by (rule emitted_append)
  then have "filter is_send_email (emitted w (snd (unsubscribe E s w))) = []"
    by simp
  with ev returns rows show ?thesis
    by (intro conjI)
qed

theorem unsubscribe_relation_absent_witness:
  "sub_type (sample_newsletter\<lparr>newsletterEmail := None\<rparr>) = Newsletter
   \<and> unsubscribeMailTo (sample_newsletter\<lparr>newsletterEmail := None\<rparr>)
       = Some ''leave@weekly.example?subject=Bye''
   \<and> newsletterEmail (sample_newsletter\<lparr>newsletterEmail := None\<rparr>) = None
   \<and> emitted sample_world
       (snd (unsubscribe sample_env (sample_newsletter\<lparr>newsletterEmail := None\<rparr>) sample_world))
       = [Log ''Failed to unsubscribe'', Repo (UpdateSubscription ''s1'' unsubscribed_status)]
   \<and> fst (unsubscribe sample_env (sample_newsletter\<lparr>newsletterEmail := None\<rparr>) sample_world)
       = Inr ()
   \<and> map sub_id (subscriptions
        (snd (unsubscribe sample_env (sample_newsletter\<lparr>newsletterEmail := None\<rparr>)
           sample_world))) = [''s1'', ''s2'']
   \<and> map status (subscriptions
        (snd (unsubscribe sample_env (sample_newsletter\<lparr>newsletterEmail := None\<rparr>)
           sample_world))) = [Unsubscribed, Active]
   \<and> map status (subscriptions sample_world) = [Active, Active]"
  using unsubscribe_relation_absent
    [where s = "sample_newsletter\<lparr>newsletterEmail := None\<rparr>"
       and m = "''leave@weekly.example?subject=Bye''" and E = sample_env and w = sample_world]
  by (simp add: sample_newsletter_fields sample_store sample_rows)

section \<open>The bulk orchestrator: every item is processed, nothing is raised\<close>

lemma unsubscribe_trace:
  fixes E :: env and s :: Subscription and w :: world
  shows "\<exists>evs e. trace (snd (unsubscribe E s w)) = trace w @ evs
           \<and> filter is_store_write evs = [e] \<and> one_write s e"
proof (cases "sub_type s = Newsletter")
  case True
  from newsletter_run [OF True, where E = E and w = w] obtain b evs where
    all: "filter is_store_write evs = [] \<and> filter is_axios_get evs = []
    \<and> (b \<longleftrightarrow> (\<exists>m ne. unsubscribeMailTo s = Some m \<and> m \<noteq> [] \<and> newsletterEmail s = Some ne
                  \<and> fst (sendUnsubscribeEmail E m (address ne) w) = Inr True))
    \<and> ((unsubscribeMailTo s = None \<or> unsubscribeMailTo s = Some [] \<or> newsletterEmail s = None)
         \<longrightarrow> evs = [])
    \<and> trace (snd (unsubscribe E s w)) = trace w @ evs @
        (if b then [Repo (DeleteSubscription (sub_id s))]
         else [Log ''Failed to unsubscribe'',
               Repo (UpdateSubscription (sub_id s) unsubscribed_status)])
    \<and> (fst (unsubscribe E s w) = Inr () \<longrightarrow>
         subscriptions (snd (unsubscribe E s w)) =
           (if b then filter (\<lambda>x. sub_id x \<noteq> sub_id s) (subscriptions w)
            else map (\<lambda>x. if sub_id x = sub_id s then x\<lparr>status := Unsubscribed\<rparr> else x)
                   (subscriptions w)))"
    by - (elim exE, rule that)
  note quiet = all [THEN conjunct1]
  note tr = all [THEN conjunct2, THEN conjunct2, THEN conjunct2, THEN conjunct2, THEN conjunct1]
  let ?tail = "(if b then [Repo (DeleteSubscription (sub_id s))]
         else [Log ''Failed to unsubscribe'',
               Repo (UpdateSubscription (sub_id s) unsubscribed_status)])"
  let ?e = "Repo (if b then DeleteSubscription (sub_id s)
                  else UpdateSubscription (sub_id s) unsubscribed_status)"
  from tr quiet have "trace (snd (unsubscribe E s w)) = trace w @ (evs @ ?tail)
      \<and> filter is_store_write (evs @ ?tail) = [?e] \<and> one_write s ?e"
    by (simp add: one_write_def)
  then show ?thesis by blast
next
  case False
  from unsubscribe_other_type(1) [OF False, where E = E and w = w]
  have "trace (snd (unsubscribe E s w)) = trace w @ [Repo (DeleteSubscription (sub_id s))]
      \<and> filter is_store_write [Repo (DeleteSubscription (sub_id s))]
          = [Repo (DeleteSubscription (sub_id s))]
      \<and> one_write s (Repo (DeleteSubscription (sub_id s)))"
    by (simp add: one_write_def)
  then show ?thesis by blast
qed

text \<open>One round of the loop: the item's error, if any, is caught and logged.\<close>

lemma guarded_unsubscribe:
  fixes E :: env and s :: Subscription and w :: world
  shows "\<exists>w' evs e.
     try_catch (unsubscribe E s) (\<lambda>error. logger_info ''Failed to unsubscribe'') w = (Inr (), w')
     \<and> trace w' = trace w @ evs \<and> filter is_store_write evs = [e] \<and> one_write s e"
proof -
  from unsubscribe_trace [where E = E and s = s and w = w] obtain evs e where
    u: "trace (snd (unsubscribe E s w)) = trace w @ evs"
       "filter is_store_write evs = [e]" "one_write s e"
    by blast
  obtain r w1 where run: "unsubscribe E s w = (r, w1)"
    by (cases "unsubscribe E s w")
  show ?thesis
  proof (cases r)
    case (Inl err)
    with run u have "try_catch (unsubscribe E s) (\<lambda>error. logger_info ''Failed to unsubscribe'') w
        = (Inr (), emit (Log ''Failed to unsubscribe'') w1)
      \<and> trace (emit (Log ''Failed to unsubscribe'') w1) = trace w @ (evs @ [Log ''Failed to unsubscribe''])
      \<and> filter is_store_write (evs @ [Log ''Failed to unsubscribe'']) = [e] \<and> one_write s e"
      by (simp add: io_defs emit_def)
    then show ?thesis by blast
  next
    case (Inr u')
    with run u have "try_catch (unsubscribe E s) (\<lambda>error. logger_info ''Failed to unsubscribe'') w
        = (Inr (), w1) \<and> trace w1 = trace w @ evs
      \<and> filter is_store_write evs = [e] \<and> one_write s e"
      by (simp add: io_defs)
    then show ?thesis by blast
  qed
qed

lemma for_each_guarded:
  fixes E :: env and w :: world
  shows "\<exists>w' evs.
     for_each subs (\<lambda>s. try_catch (unsubscribe E s) (\<lambda>error. logger_info ''Failed to unsubscribe'')) w
       = (Inr (), w')
     \<and> trace w' = trace w @ evs
     \<and> list_all2 one_write subs (filter is_store_write evs)"
proof (induction subs arbitrary: w)
  case Nil
  have "for_each [] (\<lambda>s. try_catch (unsubscribe E s) (\<lambda>error. logger_info ''Failed to unsubscribe'')) w
       = (Inr (), w) \<and> trace w = trace w @ [] \<and> list_all2 one_write [] (filter is_store_write [])"
    by (simp add: return_def)
  then show ?case by blast
next
  case (Cons s subs)
  from guarded_unsubscribe [where E = E and s = s and w = w] obtain w1 evs1 e where
    h: "try_catch (unsubscribe E s) (\<lambda>error. logger_info ''Failed to unsubscribe'') w = (Inr (), w1)"
       "trace w1 = trace w @ evs1" "filter is_store_write evs1 = [e]" "one_write s e"
    by blast
  from Cons.IH [of w1] obtain w2 evs2 where
    t: "for_each subs (\<lambda>s. try_catch (unsubscribe E s) (\<lambda>error. logger_info ''Failed to unsubscribe'')) w1
       = (Inr (), w2)"
       "trace w2 = trace w1 @ evs2" "list_all2 one_write subs (filter is_store_write evs2)"
    by blast
  from h t have "for_each (s # subs) (\<lambda>s. try_catch (unsubscribe E s) (\<lambda>error. logger_info ''Failed to unsubscribe'')) w
       = (Inr (), w2) \<and> trace w2 = trace w @ (evs1 @ evs2)
       \<and> list_all2 one_write (s # subs) (filter is_store_write (evs1 @ evs2))"
    by (simp add: bind_def)
  then show ?case by blast
qed


lemma Subscription_find_trace:
  "Subscription_find E uid nid w = (r, w1) \<Longrightarrow>
     trace w1 = trace w @ [Repo (FindSubscriptions uid nid)]"
  by (auto simp: Subscription_find_def repository_def emit_def split: option.splits)

lemma bulk_eval:
  "unsubscribeAll flaky_env inbox bulk_world =
     (Inr (),
      \<lparr>subscriptions = [sample_newsletter\<lparr>newsletterEmail := None\<rparr>],
       newsletter_emails = [inbox],
       trace = [Repo (FindSubscriptions ''u1'' ''ne1''),
                SendEmail (Mail ''leave@weekly.example'' ''Bye'' UNSUBSCRIBE_EMAIL_TEXT ''u1@inbox.example''),
                Repo (DeleteSubscription ''s1''),
                Log ''Failed to unsubscribe'',
                SendEmail (Mail ''leave@weekly.example'' ''Bye'' UNSUBSCRIBE_EMAIL_TEXT ''u1@inbox.example''),
                Repo (DeleteSubscription ''s3'')]\<rparr>)"
  by code_simp

text \<open>
  C6. \<open>unsubscribeAll\<close> returns normally for every address, every world and every
  behaviour of the store and the mail service. When the list is fetched, every
  subscription of the list gets its store write (the delete or the status update), in
  the order of the list, whether or not an earlier item raised; a failure of the fetch
  itself is caught as well.
\<close>

theorem unsubscribeAll_never_raises:
  fixes E :: env and ne :: NewsletterEmail and w :: world
  shows "fst (unsubscribeAll E ne w) = Inr ()
    \<and> (\<forall>uid subs w1.
          ne_user ne = Some uid \<longrightarrow> Subscription_find E uid (ne_id ne) w = (Inr subs, w1) \<longrightarrow>
          list_all2 one_write subs
            (filter is_store_write (emitted w (snd (unsubscribeAll E ne w)))))"
proof (cases "ne_user ne")
  case None
  then show ?thesis
    by (simp add: unsubscribeAll_def io_defs)
next
  case (Some uid)
  obtain r w1 where f: "Subscription_find E uid (ne_id ne) w = (r, w1)"
    by (cases "Subscription_find E uid (ne_id ne) w")
  note tr1 = Subscription_find_trace [OF f]
  show ?thesis
  proof (cases r)
    case (Inl e)
    with Some f show ?thesis
      by (simp add: unsubscribeAll_def io_defs)
  next
    case (Inr subs)
    from for_each_guarded [where E = E and subs = subs and w = w1] obtain w2 evs where
      l: "for_each subs
            (\<lambda>s. try_catch (unsubscribe E s) (\<lambda>error. logger_info ''Failed to unsubscribe'')) w1
          = (Inr (), w2)"
         "trace w2 = trace w1 @ evs" "list_all2 one_write subs (filter is_store_write evs)"
      by blast
    from Some f Inr l(1) have run: "unsubscribeAll E ne w = (Inr (), w2)"
      by (simp add: unsubscribeAll_def bind_def try_catch_def)
    from tr1 l(2) have "emitted w w2 = Repo (FindSubscriptions uid (ne_id ne)) # evs"
      by (simp add: emitted_def)
    with l(3) Some f Inr run show ?thesis
      by simp
  qed
qed

theorem unsubscribeAll_never_raises_witness:
  "ne_user inbox = Some ''u1''
   \<and> fst (Subscription_find flaky_env ''u1'' (ne_id inbox) bulk_world)
       = Inr [sample_newsletter, sample_newsletter\<lparr>sub_id := ''s3'', name := ''Monthly''\<rparr>]
   \<and> fst (Subscription_delete flaky_env ''s1'' bulk_world) = Inl (Thrown ''connection lost'')
   \<and> fst (unsubscribeAll flaky_env inbox bulk_world) = Inr ()
   \<and> list_all2 one_write
        [sample_newsletter, sample_newsletter\<lparr>sub_id := ''s3'', name := ''Monthly''\<rparr>]
        (filter is_store_write
           (emitted bulk_world (snd (unsubscribeAll flaky_env inbox bulk_world))))
   \<and> filter is_store_write (emitted bulk_world (snd (unsubscribeAll flaky_env inbox bulk_world)))
       = [Repo (DeleteSubscription ''s1''), Repo (DeleteSubscription ''s3'')]
   \<and> map sub_id (subscriptions (snd (unsubscribeAll flaky_env inbox bulk_world))) = [''s1'']"
proof -
  have owner: "ne_user inbox = Some ''u1''"
    by (simp add: inbox_def)
  have fetched: "Subscription_find flaky_env ''u1'' (ne_id inbox) bulk_world =
      (Inr [sample_newsletter, sample_newsletter\<lparr>sub_id := ''s3'', name := ''Monthly''\<rparr>],
       emit (Repo (FindSubscriptions ''u1'' ''ne1'')) bulk_world)"
    by code_simp
  have raised: "fst (Subscription_delete flaky_env ''s1'' bulk_world) = Inl (Thrown ''connection lost'')"
    by (simp add: Subscription_delete_eq flaky_env_def)
  have start: "trace bulk_world = []"
    by (simp add: bulk_world_def)
  note all = unsubscribeAll_never_raises [where E = flaky_env and ne = inbox and w = bulk_world]
  from all have returns: "fst (unsubscribeAll flaky_env inbox bulk_world) = Inr ()"
    by (rule conjunct1)
  from all owner fetched have each: "list_all2 one_write
        [sample_newsletter, sample_newsletter\<lparr>sub_id := ''s3'', name := ''Monthly''\<rparr>]
        (filter is_store_write
           (emitted bulk_world (snd (unsubscribeAll flaky_env inbox bulk_world))))"
    by blast
  have rows: "map sub_id (subscriptions (snd (unsubscribeAll flaky_env inbox bulk_world))) = [''s1'']"
    by (simp add: bulk_eval sample_newsletter_def)
  have writes: "filter is_store_write
        (emitted bulk_world (snd (unsubscribeAll flaky_env inbox bulk_world)))
       = [Repo (DeleteSubscription ''s1''), Repo (DeleteSubscription ''s3'')]"
    by (simp add: bulk_eval emitted_def start)
  from fetched have fetched': "fst (Subscription_find flaky_env ''u1'' (ne_id inbox) bulk_world)
       = Inr [sample_newsletter, sample_newsletter\<lparr>sub_id := ''s3'', name := ''Monthly''\<rparr>]"
    by simp
  from owner fetched' raised returns each writes rows show ?thesis
    by (intro conjI)
qed

section \<open>The upsert\<close>




lemma apply_patch_key [simp]:
  "name (apply_patch p s) = name s" "user (apply_patch p s) = user s"
  "sub_type (apply_patch p s) = sub_type s" "sub_id (apply_patch p s) = sub_id s"
  by (simp_all add: apply_patch_def)







section \<open>The uniqueness invariant\<close>

lemma preserves_return [simp]: "preserves_unique (return x)"
  by (simp add: preserves_unique_def return_def)

lemma preserves_throw [simp]: "preserves_unique (throw e)"
  by (simp add: preserves_unique_def throw_def)

lemma unique_keys_trace [simp]: "unique_keys (w\<lparr>trace := t\<rparr>) = unique_keys w"
  by (simp add: unique_keys_def)

lemma unique_keys_emit [simp]: "unique_keys (emit e w) = unique_keys w"
  by (simp add: emit_def)

lemma preserves_logger_info [simp]: "preserves_unique (logger_info msg)"
  by (simp add: preserves_unique_def logger_info_def)

lemma preserves_bind:
  assumes "preserves_unique m" and "\<And>x. preserves_unique (f x)"
  shows "preserves_unique (bind m f)"
  unfolding preserves_unique_def
proof (intro allI impI)
  fix w assume u: "unique_keys w"
  obtain r w1 where m: "m w = (r, w1)" by (cases "m w")
  from assms(1) u m have u1: "unique_keys w1"
    by (auto simp: preserves_unique_def)
  show "unique_keys (snd (bind m f w))"
  proof (cases r)
    case (Inl e)
    with m u1 show ?thesis by (simp add: bind_def)
  next
    case (Inr x)
    from assms(2) [of x] u1 have "unique_keys (snd (f x w1))"
      by (simp add: preserves_unique_def)
    with m Inr show ?thesis by (simp add: bind_def)
  qed
qed

lemma preserves_try_catch:
  assumes "preserves_unique m" and "\<And>e. preserves_unique (h e)"
  shows "preserves_unique (try_catch m h)"
  unfolding preserves_unique_def
proof (intro allI impI)
  fix w assume u: "unique_keys w"
  obtain r w1 where m: "m w = (r, w1)" by (cases "m w")
  from assms(1) u m have u1: "unique_keys w1"
    by (auto simp: preserves_unique_def)
  show "unique_keys (snd (try_catch m h w))"
  proof (cases r)
    case (Inr x)
    with m u1 show ?thesis by (simp add: try_catch_def)
  next
    case (Inl e)
    from assms(2) [of e] u1 have "unique_keys (snd (h e w1))"
      by (simp add: preserves_unique_def)
    with m Inl show ?thesis by (simp add: try_catch_def)
  qed
qed

lemma key_of_apply_patch [simp]: "key_of (apply_patch p s) = key_of s"
  by (simp add: key_of_def apply_patch_def)

lemma keys_patched:
  "map (key_of \<circ> (\<lambda>s. if sub_id s = i then apply_patch p s else s)) xs = map key_of xs"
  by (induction xs) simp_all

lemma preserves_update: "preserves_unique (Subscription_update E i p)"
  by (simp add: preserves_unique_def Subscription_update_eq unique_keys_def keys_patched
        split: option.splits)

lemma preserves_delete: "preserves_unique (Subscription_delete E i)"
  by (simp add: preserves_unique_def Subscription_delete_eq unique_keys_def distinct_map_filter
        split: option.splits)

lemma preserves_sendUnsubscribeEmail: "preserves_unique (sendUnsubscribeEmail E m a)"
  by (simp add: preserves_unique_def sendUnsubscribeEmail_eq split: sum.splits)

lemma preserves_unsubscribe: "preserves_unique (unsubscribe E s)"
  unfolding unsubscribe_def
  by (auto intro!: preserves_bind preserves_update preserves_delete preserves_sendUnsubscribeEmail
        split: option.splits)

lemma preserves_for_each:
  assumes "\<And>x. preserves_unique (body x)"
  shows "preserves_unique (for_each xs body)"
  by (induction xs) (auto intro!: preserves_bind assms)

lemma preserves_find: "preserves_unique (Subscription_find E uid nid)"
  by (simp add: preserves_unique_def Subscription_find_def repository_def split: option.splits)

lemma preserves_unsubscribeAll: "preserves_unique (unsubscribeAll E ne)"
  unfolding unsubscribeAll_def
  by (auto intro!: preserves_try_catch preserves_bind preserves_for_each preserves_unsubscribe
        preserves_find split: option.splits)


lemma key_of_new_row:
  "key_of (new_row i ty d) = (draft_user d, draft_name d, case draft_type d of None \<Rightarrow> ty | Some t \<Rightarrow> t)"
  by (simp add: key_of_def new_row_def)

lemma find_None_key:
  "find (\<lambda>s. name s = nm \<and> user s = uid \<and> sub_type s = ty) xs = None \<Longrightarrow>
     (uid, nm, ty) \<notin> set (map key_of xs)"
  by (auto simp: find_None_iff key_of_def)

text \<open>What \<open>saveSubscription\<close> does to the rows, whatever the store does: nothing, a
  patch of the rows with the id of the row found, or one new row when none matched.\<close>

lemma saveSubscription_rows:
  fixes E :: env and inp :: SaveSubscriptionInput and w :: world
  shows "subscriptions (snd (saveSubscription E inp w)) = subscriptions w
    \<or> (\<exists>i p. subscriptions (snd (saveSubscription E inp w)) =
               map (\<lambda>s. if sub_id s = i then apply_patch p s else s) (subscriptions w))
    \<or> (find (\<lambda>s. name s = in_name inp \<and> user s = in_userId inp \<and> sub_type s = Newsletter)
          (subscriptions w) = None
        \<and> (\<exists>row. subscriptions (snd (saveSubscription E inp w)) = subscriptions w @ [row]
               \<and> key_of row = (in_userId inp, in_name inp, Newsletter)))"
proof (cases "repo_fault E w (FindOneSubscription (in_name inp) (in_userId inp) Newsletter)")
  case (Some e)
  then have "subscriptions (snd (saveSubscription E inp w)) = subscriptions w"
    by (simp add: saveSubscription_def getSubscriptionByNameAndUserId_def
          Subscription_findOneBy_def repository_def emit_def io_defs Let_def)
  then show ?thesis by simp
next
  case None
  let ?w1 = "emit (Repo (FindOneSubscription (in_name inp) (in_userId inp) Newsletter)) w"
  show ?thesis
  proof (cases "find (\<lambda>s. name s = in_name inp \<and> user s = in_userId inp \<and> sub_type s = Newsletter)
          (subscriptions w)")
    case (Some ex)
    with None have "saveSubscription E inp w =
        bind (Subscription_update E (sub_id ex) (subscriptionData (now E w) inp))
          (\<lambda>_. return (sub_id ex)) ?w1"
      by (simp add: saveSubscription_def getSubscriptionByNameAndUserId_def
          Subscription_findOneBy_def repository_def emit_def bind_def Let_def)
    then have "subscriptions (snd (saveSubscription E inp w)) = subscriptions w
      \<or> subscriptions (snd (saveSubscription E inp w)) =
          map (\<lambda>s. if sub_id s = sub_id ex
                    then apply_patch (subscriptionData (now E w) inp) s else s) (subscriptions w)"
      by (simp add: Subscription_update_eq io_defs emit_def split: option.splits)
    then show ?thesis by blast
  next
    case none: None
    let ?d = "\<lparr>draft_name = in_name inp,
                        draft_newsletterEmailId = ne_id (in_newsletterEmail inp),
                        draft_user = in_userId inp,
                        draft_type = Some Newsletter,
                        draft_status = None,
                        draft_unsubscribeHttpUrl = patch_unsubscribeHttpUrl (subscriptionData (now E w) inp),
                        draft_unsubscribeMailTo = patch_unsubscribeMailTo (subscriptionData (now E w) inp),
                        draft_icon = patch_icon (subscriptionData (now E w) inp),
                        draft_lastFetchedAt = patch_lastFetchedAt (subscriptionData (now E w) inp)\<rparr>"
    from None none have run: "saveSubscription E inp w =
        bind (Subscription_save E ?d) (\<lambda>result. return (sub_id result)) ?w1"
      by (simp add: saveSubscription_def getSubscriptionByNameAndUserId_def
          Subscription_findOneBy_def repository_def emit_def bind_def Let_def)
    show ?thesis
    proof (cases "repo_fault E ?w1 (SaveSubscription ?d)")
      case (Some e)
      with run have "subscriptions (snd (saveSubscription E inp w)) = subscriptions w"
        by (simp add: Subscription_save_def repository_def emit_def io_defs)
      then show ?thesis by simp
    next
      case None
      let ?row = "new_row (generated_id E (emit (Repo (SaveSubscription ?d)) ?w1)) (default_type E) ?d"
      from None run have "subscriptions (snd (saveSubscription E inp w)) = subscriptions w @ [?row]
          \<and> key_of ?row = (in_userId inp, in_name inp, Newsletter)"
        by (simp add: Subscription_save_def repository_def emit_def io_defs Let_def key_of_new_row)
      with none show ?thesis by blast
    qed
  qed
qed

lemma preserves_saveSubscription: "preserves_unique (saveSubscription E inp)"
  unfolding preserves_unique_def
proof (intro allI impI)
  fix w assume u: "unique_keys w"
  from saveSubscription_rows [where E = E and inp = inp and w = w]
  show "unique_keys (snd (saveSubscription E inp w))"
  proof (elim disjE exE conjE)
    assume "subscriptions (snd (saveSubscription E inp w)) = subscriptions w"
    with u show ?thesis by (simp add: unique_keys_def)
  next
    fix i p
    assume "subscriptions (snd (saveSubscription E inp w)) =
               map (\<lambda>s. if sub_id s = i then apply_patch p s else s) (subscriptions w)"
    with u show ?thesis by (simp add: unique_keys_def keys_patched)
  next
    fix row
    assume none: "find (\<lambda>s. name s = in_name inp \<and> user s = in_userId inp \<and> sub_type s = Newsletter)
          (subscriptions w) = None"
      and rows: "subscriptions (snd (saveSubscription E inp w)) = subscriptions w @ [row]"
      and key: "key_of row = (in_userId inp, in_name inp, Newsletter)"
    from find_None_key [OF none] key u rows show ?thesis
      by (simp add: unique_keys_def)
  qed
qed

lemma preserves_save:
  assumes "enforces_unique E"
  shows "preserves_unique (Subscription_save E d)"
  unfolding preserves_unique_def
proof (intro allI impI)
  fix w assume u: "unique_keys w"
  show "unique_keys (snd (Subscription_save E d w))"
  proof (cases "repo_fault E w (SaveSubscription d)")
    case (Some e)
    with u show ?thesis
      by (simp add: Subscription_save_def repository_def)
  next
    case None
    have "key_of (new_row [] (default_type E) d) \<notin> set (map key_of (subscriptions w))"
    proof
      assume "key_of (new_row [] (default_type E) d) \<in> set (map key_of (subscriptions w))"
      with assms have "repo_fault E w (SaveSubscription d) \<noteq> None"
        unfolding enforces_unique_def by blast
      with None show False by simp
    qed
    with None u show ?thesis
      by (simp add: Subscription_save_def repository_def emit_def Let_def unique_keys_def
            key_of_new_row)
  qed
qed

lemma preserves_promise_all:
  assumes "\<And>p. p \<in> set ps \<Longrightarrow> preserves_unique p"
  shows "preserves_unique (promise_all ps)"
  using assms
proof (induction ps)
  case Nil
  show ?case by (simp add: preserves_unique_def)
next
  case (Cons p ps)
  from Cons.prems have p: "preserves_unique p" by simp
  from Cons have ps: "preserves_unique (promise_all ps)" by simp
  show ?case
    unfolding preserves_unique_def
  proof (intro allI impI)
    fix w assume u: "unique_keys w"
    from p u have "unique_keys (snd (p w))" by (simp add: preserves_unique_def)
    with ps have "unique_keys (snd (promise_all ps (snd (p w))))"
      by (simp add: preserves_unique_def)
    then show "unique_keys (snd (promise_all (p # ps) w))"
      by (auto split: prod.splits)
  qed
qed

lemma preserves_NewsletterEmail_findOneBy: "preserves_unique (NewsletterEmail_findOneBy E uid)"
  by (simp add: preserves_unique_def NewsletterEmail_findOneBy_def repository_def
        split: option.splits)

lemma preserves_createNewsletterEmail: "preserves_unique (createNewsletterEmail_call E uid)"
  by (simp add: preserves_unique_def createNewsletterEmail_call_def unique_keys_def emit_def
        split: sum.splits)

lemma preserves_axios_send: "preserves_unique (axios_send_call E h email)"
  by (simp add: preserves_unique_def axios_send_call_def)

lemma preserves_subscribe: "preserves_unique (subscribe E h email)"
  by (cases h) (auto intro!: preserves_bind preserves_axios_send)

lemma preserves_handleSubscribe:
  assumes "enforces_unique E"
  shows "preserves_unique (handleSubscribe E h uid nm)"
  unfolding handleSubscribe_def
  by (auto intro!: preserves_bind preserves_try_catch preserves_promise_all
        preserves_save [OF assms] preserves_NewsletterEmail_findOneBy
        preserves_createNewsletterEmail preserves_subscribe
        split: option.splits)

lemma enforces_unique_strict_env: "enforces_unique strict_env"
  by (simp add: enforces_unique_def strict_env_def sample_env_def constraint_fault_def)

section \<open>The signup flow\<close>

lemma keeps_rows_return [simp]: "keeps_rows (return x)"
  by (simp add: keeps_rows_def return_def)

lemma keeps_rows_logger_info [simp]: "keeps_rows (logger_info msg)"
  by (simp add: keeps_rows_def logger_info_def emit_def)

lemma keeps_rows_bind:
  assumes "keeps_rows m" and "\<And>x. keeps_rows (f x)"
  shows "keeps_rows (bind m f)"
  unfolding keeps_rows_def
proof
  fix w
  obtain r w1 where m: "m w = (r, w1)" by (cases "m w")
  with assms(1) have r1: "subscriptions w1 = subscriptions w"
    by (auto simp: keeps_rows_def dest: spec [of _ w])
  show "subscriptions (snd (bind m f w)) = subscriptions w"
  proof (cases r)
    case (Inl e)
    with m r1 show ?thesis by (simp add: bind_def)
  next
    case (Inr x)
    from assms(2) [of x] have "subscriptions (snd (f x w1)) = subscriptions w1"
      by (simp add: keeps_rows_def)
    with m Inr r1 show ?thesis by (simp add: bind_def)
  qed
qed

lemma keeps_rows_try_catch:
  assumes "keeps_rows m" and "\<And>e. keeps_rows (h e)"
  shows "keeps_rows (try_catch m h)"
  unfolding keeps_rows_def
proof
  fix w
  obtain r w1 where m: "m w = (r, w1)" by (cases "m w")
  with assms(1) have r1: "subscriptions w1 = subscriptions w"
    by (auto simp: keeps_rows_def dest: spec [of _ w])
  show "subscriptions (snd (try_catch m h w)) = subscriptions w"
  proof (cases r)
    case (Inr x)
    with m r1 show ?thesis by (simp add: try_catch_def)
  next
    case (Inl e)
    from assms(2) [of e] have "subscriptions (snd (h e w1)) = subscriptions w1"
      by (simp add: keeps_rows_def)
    with m Inl r1 show ?thesis by (simp add: try_catch_def)
  qed
qed

lemma keeps_rows_NewsletterEmail_findOneBy: "keeps_rows (NewsletterEmail_findOneBy E uid)"
  by (simp add: keeps_rows_def NewsletterEmail_findOneBy_def repository_def emit_def
        split: option.splits)

lemma keeps_rows_createNewsletterEmail: "keeps_rows (createNewsletterEmail_call E uid)"
  by (simp add: keeps_rows_def createNewsletterEmail_call_def emit_def split: sum.splits)

lemma keeps_rows_axios_send: "keeps_rows (axios_send_call E h email)"
  by (simp add: keeps_rows_def axios_send_call_def emit_def)

lemma keeps_rows_subscribe: "keeps_rows (subscribe E h email)"
  by (cases h) (auto intro!: keeps_rows_bind keeps_rows_axios_send)

text \<open>A try block whose handler logs and returns a value never raises.\<close>

lemma try_catch_total:
  "\<exists>x w'. try_catch m (\<lambda>error. bind (logger_info msg) (\<lambda>_. return v)) w = (Inr x, w')"
  by (cases "m w") (auto simp: io_defs split: sum.splits)

text \<open>The saves behind \<open>Promise.all\<close>: when all complete, the rows are appended, one per
  name, Active, of that user and bound to that address; a rejection is a rejection of
  some save by the store.\<close>

lemma saves_outcome:
  assumes "promise_all (map (\<lambda>n. Subscription_save E (handle_draft uid ne n)) names) w = (r, w')"
  shows "(\<forall>rows. r = Inr rows \<longrightarrow>
            subscriptions w' = subscriptions w @ rows \<and> map name rows = names
            \<and> list_all (\<lambda>x. status x = Active \<and> user x = uid
                           \<and> newsletterEmailId x = Some (ne_id ne)) rows)
       \<and> (\<forall>e. r = Inl e \<longrightarrow> (\<exists>d w''. repo_fault E w'' (SaveSubscription d) = Some e))"
  using assms
proof (induction names arbitrary: w r w')
  case Nil
  then show ?case by auto
next
  case (Cons n names)
  obtain r1 w1 where s: "Subscription_save E (handle_draft uid ne n) w = (r1, w1)"
    by (cases "Subscription_save E (handle_draft uid ne n) w")
  obtain rs w2 where t:
    "promise_all (map (\<lambda>n. Subscription_save E (handle_draft uid ne n)) names) w1 = (rs, w2)"
    by (cases "promise_all (map (\<lambda>n. Subscription_save E (handle_draft uid ne n)) names) w1")
  note ih = Cons.IH [OF t]
  from Cons.prems s t have res:
    "r = (case r1 of Inl e \<Rightarrow> Inl e
          | Inr x \<Rightarrow> (case rs of Inl e \<Rightarrow> Inl e | Inr xs \<Rightarrow> Inr (x # xs)))" "w' = w2"
    by simp_all
  show ?case
  proof (cases "repo_fault E w (SaveSubscription (handle_draft uid ne n))")
    case (Some e)
    with s have "r1 = Inl e" by (auto simp: Subscription_save_def repository_def)
    with res Some show ?thesis by auto
  next
    case None
    let ?row = "new_row (generated_id E (emit (Repo (SaveSubscription (handle_draft uid ne n))) w))
                  (default_type E) (handle_draft uid ne n)"
    from None s have r1: "r1 = Inr ?row" and w1: "subscriptions w1 = subscriptions w @ [?row]"
      by (auto simp: Subscription_save_def repository_def emit_def Let_def)
    have row: "name ?row = n" "status ?row = Active" "user ?row = uid"
      "newsletterEmailId ?row = Some (ne_id ne)"
      by (simp_all add: new_row_def handle_draft_def)
    show ?thesis
    proof (cases rs)
      case (Inl e)
      with res r1 ih show ?thesis by auto
    next
      case (Inr xs)
      with res r1 ih w1 row show ?thesis by auto
    qed
  qed
qed


lemma pending_names:
  assumes "try_catch
          (bind m
             (\<lambda>ne. bind (g ne)
                (\<lambda>subscribedNames.
                   if length subscribedNames = 0
                   then bind (logger_info msg) (\<lambda>_. return None)
                   else return (Some (ne, subscribedNames)))))
          (\<lambda>error. bind (logger_info msg') (\<lambda>_. return None)) w = (Inr (Some (ne', names)), w1)"
  shows "names \<noteq> []"
  using assms
  by (auto simp: io_defs split: prod.splits sum.splits if_splits)

text \<open>The outcomes of \<open>handleSubscribe\<close>: \<open>null\<close> with no row created; or the created
  rows, at least one, appended to the table, each Active, of the user and bound to an
  address; or a rejection, which is a rejection of a save by the store.\<close>

lemma handleSubscribe_outcomes:
  assumes run: "handleSubscribe E h uid nm w = (r, w')"
  shows "(r = Inr None \<longrightarrow> subscriptions w' = subscriptions w)
    \<and> (\<forall>rows. r = Inr (Some rows) \<longrightarrow>
          rows \<noteq> [] \<and> subscriptions w' = subscriptions w @ rows
          \<and> list_all (\<lambda>x. status x = Active \<and> user x = uid
                         \<and> (\<exists>i. newsletterEmailId x = Some i)) rows)
    \<and> (\<forall>e. r = Inl e \<longrightarrow> (\<exists>d w''. repo_fault E w'' (SaveSubscription d) = Some e))"
proof -
  let ?block = "try_catch
          (bind (bind (NewsletterEmail_findOneBy E uid)
                   (\<lambda>found. case found of
                               Some ne \<Rightarrow> return ne
                             | None \<Rightarrow> createNewsletterEmail_call E uid))
             (\<lambda>ne. bind (subscribe E h (address ne))
                (\<lambda>subscribedNames.
                   if length subscribedNames = 0
                   then bind (logger_info ''Failed to get subscribe response'')
                          (\<lambda>_. return None)
                   else return (Some (ne, subscribedNames)))))
          (\<lambda>error. bind (logger_info ''Failed to handleSubscribe'') (\<lambda>_. return None))"
  have "\<exists>x w1. ?block w = (Inr x, w1)"
    by (rule try_catch_total)
  then obtain x w1 where t: "?block w = (Inr x, w1)"
    by blast
  have "keeps_rows ?block"
    by (auto intro!: keeps_rows_try_catch keeps_rows_bind keeps_rows_NewsletterEmail_findOneBy
          keeps_rows_createNewsletterEmail keeps_rows_subscribe split: option.splits)
  with t have rows1: "subscriptions w1 = subscriptions w"
    by (auto simp: keeps_rows_def dest: spec [of _ w])
  show ?thesis
  proof (cases x)
    case None
    with run t have "r = Inr None" "w' = w1"
      by (simp_all add: handleSubscribe_def bind_def return_def)
    with rows1 show ?thesis by simp
  next
    case (Some p)
    obtain ne names where p: "p = (ne, names)" by (cases p)
    from t have "?block w = (Inr (Some (ne, names)), w1)"
      unfolding Some p .
    then have names: "names \<noteq> []"
      by (rule pending_names)
    obtain rs w2 where s:
      "promise_all (map (\<lambda>n. Subscription_save E (handle_draft uid ne n)) names) w1 = (rs, w2)"
      by (cases "promise_all (map (\<lambda>n. Subscription_save E (handle_draft uid ne n)) names) w1")
    note out = saves_outcome [OF s]
    from run t Some p s have res:
      "r = (case rs of Inl e \<Rightarrow> Inl e | Inr rows \<Rightarrow> Inr (Some rows))" "w' = w2"
      by (simp_all add: handleSubscribe_def bind_def return_def split: sum.splits)
    show ?thesis
    proof (cases rs)
      case (Inl e)
      with res out show ?thesis by auto
    next
      case (Inr rows)
      with out have o: "subscriptions w2 = subscriptions w1 @ rows" "map name rows = names"
        "list_all (\<lambda>x. status x = Active \<and> user x = uid
                           \<and> newsletterEmailId x = Some (ne_id ne)) rows"
        by simp_all
      from o(2) names have "rows \<noteq> []" by auto
      moreover from o(3) have "list_all (\<lambda>x. status x = Active \<and> user x = uid
                         \<and> (\<exists>i. newsletterEmailId x = Some i)) rows"
        by (simp add: list_all_iff)
      ultimately show ?thesis
        using res Inr o(1) rows1 by simp
    qed
  qed
qed

text \<open>\<open>handleSubscribe\<close> issues no lookup, update or delete of a subscription row.\<close>

lemma no_row_accessI:
  assumes "\<And>w. \<exists>evs. trace (snd (m w)) = trace w @ evs \<and> filter is_row_access evs = []"
  shows "no_row_access m"
  using assms by (simp add: no_row_access_def)

lemma no_row_access_return [simp]: "no_row_access (return x)"
  by (simp add: no_row_access_def return_def)

lemma no_row_access_logger_info [simp]: "no_row_access (logger_info msg)"
proof (rule no_row_accessI)
  fix w
  have "trace (snd (logger_info msg w)) = trace w @ [Log msg] \<and> filter is_row_access [Log msg] = []"
    by (simp add: logger_info_def emit_def)
  then show "\<exists>evs. trace (snd (logger_info msg w)) = trace w @ evs \<and> filter is_row_access evs = []"
    by blast
qed

lemma no_row_access_bind:
  assumes "no_row_access m" and "\<And>x. no_row_access (f x)"
  shows "no_row_access (bind m f)"
proof (rule no_row_accessI)
  fix w
  obtain r w1 where m: "m w = (r, w1)" by (cases "m w")
  from assms(1) obtain evs1 where e1: "trace (snd (m w)) = trace w @ evs1" "filter is_row_access evs1 = []"
    unfolding no_row_access_def by blast
  show "\<exists>evs. trace (snd (bind m f w)) = trace w @ evs \<and> filter is_row_access evs = []"
  proof (cases r)
    case (Inl e)
    with m e1 have "trace (snd (bind m f w)) = trace w @ evs1 \<and> filter is_row_access evs1 = []"
      by (simp add: bind_def)
    then show ?thesis by blast
  next
    case (Inr x)
    from assms(2) [of x] obtain evs2 where
      e2: "trace (snd (f x w1)) = trace w1 @ evs2" "filter is_row_access evs2 = []"
      unfolding no_row_access_def by blast
    with m Inr e1 have "trace (snd (bind m f w)) = trace w @ (evs1 @ evs2)
        \<and> filter is_row_access (evs1 @ evs2) = []"
      by (simp add: bind_def)
    then show ?thesis by blast
  qed
qed

lemma no_row_access_try_catch:
  assumes "no_row_access m" and "\<And>e. no_row_access (h e)"
  shows "no_row_access (try_catch m h)"
proof (rule no_row_accessI)
  fix w
  obtain r w1 where m: "m w = (r, w1)" by (cases "m w")
  from assms(1) obtain evs1 where e1: "trace (snd (m w)) = trace w @ evs1" "filter is_row_access evs1 = []"
    unfolding no_row_access_def by blast
  show "\<exists>evs. trace (snd (try_catch m h w)) = trace w @ evs \<and> filter is_row_access evs = []"
  proof (cases r)
    case (Inr x)
    with m e1 have "trace (snd (try_catch m h w)) = trace w @ evs1 \<and> filter is_row_access evs1 = []"
      by (simp add: try_catch_def)
    then show ?thesis by blast
  next
    case (Inl e)
    from assms(2) [of e] obtain evs2 where
      e2: "trace (snd (h e w1)) = trace w1 @ evs2" "filter is_row_access evs2 = []"
      unfolding no_row_access_def by blast
    with m Inl e1 have "trace (snd (try_catch m h w)) = trace w @ (evs1 @ evs2)
        \<and> filter is_row_access (evs1 @ evs2) = []"
      by (simp add: try_catch_def)
    then show ?thesis by blast
  qed
qed

lemma no_row_access_single:
  assumes "\<And>w. trace (snd (m w)) = trace w @ [e]" and "\<not> is_row_access e"
  shows "no_row_access m"
proof (rule no_row_accessI)
  fix w
  from assms have "trace (snd (m w)) = trace w @ [e] \<and> filter is_row_access [e] = []"
    by simp
  then show "\<exists>evs. trace (snd (m w)) = trace w @ evs \<and> filter is_row_access evs = []"
    by blast
qed

lemma no_row_access_NewsletterEmail_findOneBy: "no_row_access (NewsletterEmail_findOneBy E uid)"
  by (rule no_row_access_single [where e = "Repo (FindOneNewsletterEmail uid)"])
    (simp_all add: NewsletterEmail_findOneBy_def repository_def emit_def split: option.splits)

lemma no_row_access_createNewsletterEmail: "no_row_access (createNewsletterEmail_call E uid)"
  by (rule no_row_access_single [where e = "CreateNewsletterEmail uid"])
    (simp_all add: createNewsletterEmail_call_def emit_def split: sum.splits)

lemma no_row_access_axios_send: "no_row_access (axios_send_call E h email)"
  by (rule no_row_access_single [where e = "AxiosSend h email"])
    (simp_all add: axios_send_call_def emit_def)

lemma no_row_access_subscribe: "no_row_access (subscribe E h email)"
  by (cases h) (auto intro!: no_row_access_bind no_row_access_axios_send)

lemma no_row_access_save: "no_row_access (Subscription_save E d)"
  by (rule no_row_access_single [where e = "Repo (SaveSubscription d)"])
    (simp_all add: Subscription_save_def repository_def emit_def Let_def split: option.splits)

lemma no_row_access_promise_all:
  assumes "\<And>p. p \<in> set ps \<Longrightarrow> no_row_access p"
  shows "no_row_access (promise_all ps)"
  using assms
proof (induction ps)
  case Nil
  show ?case by (simp add: no_row_access_def)
next
  case (Cons p ps)
  from Cons.prems have p: "no_row_access p" by simp
  from Cons have ps: "no_row_access (promise_all ps)" by simp
  show ?case
  proof (rule no_row_accessI)
    fix w
    from p obtain evs1 where e1: "trace (snd (p w)) = trace w @ evs1" "filter is_row_access evs1 = []"
      unfolding no_row_access_def by blast
    from ps obtain evs2 where
      e2: "trace (snd (promise_all ps (snd (p w)))) = trace (snd (p w)) @ evs2"
          "filter is_row_access evs2 = []"
      unfolding no_row_access_def by blast
    have "snd (promise_all (p # ps) w) = snd (promise_all ps (snd (p w)))"
      by (simp split: prod.splits)
    with e1 e2 have "trace (snd (promise_all (p # ps) w)) = trace w @ (evs1 @ evs2)
        \<and> filter is_row_access (evs1 @ evs2) = []"
      by simp
    then show "\<exists>evs. trace (snd (promise_all (p # ps) w)) = trace w @ evs
        \<and> filter is_row_access evs = []"
      by blast
  qed
qed

lemma no_row_access_handleSubscribe: "no_row_access (handleSubscribe E h uid nm)"
  unfolding handleSubscribe_def
  by (auto intro!: no_row_access_bind no_row_access_try_catch no_row_access_promise_all
        no_row_access_save no_row_access_NewsletterEmail_findOneBy
        no_row_access_createNewsletterEmail no_row_access_subscribe
        split: option.splits)

text \<open>The saves behind \<open>Promise.all\<close> only append rows, also when the store rejects
  some of them.\<close>

lemma saves_append:
  "prefix (subscriptions w)
     (subscriptions (snd (promise_all (map (\<lambda>n. Subscription_save E (f n)) names) w)))"
proof (induction names arbitrary: w)
  case Nil
  show ?case by simp
next
  case (Cons n names)
  have one: "prefix (subscriptions w) (subscriptions (snd (Subscription_save E (f n) w)))"
    by (simp add: Subscription_save_def repository_def emit_def Let_def split: option.splits)
  have "snd (promise_all (map (\<lambda>n. Subscription_save E (f n)) (n # names)) w) =
      snd (promise_all (map (\<lambda>n. Subscription_save E (f n)) names)
             (snd (Subscription_save E (f n) w)))"
    by (simp split: prod.splits)
  with one Cons.IH [of "snd (Subscription_save E (f n) w)"] show ?case
    by (auto intro: prefix_order.trans)
qed


lemma pending_from:
  assumes "try_catch
          (bind m
             (\<lambda>ne. bind (g ne)
                (\<lambda>subscribedNames.
                   if length subscribedNames = 0
                   then bind (logger_info msg) (\<lambda>_. return None)
                   else return (Some (ne, subscribedNames)))))
          (\<lambda>error. bind (logger_info msg') (\<lambda>_. return None)) w = (Inr (Some (ne', names)), w1)"
  shows "\<exists>w0. fst (g ne' w0) = Inr names"
proof -
  obtain r0 w0 where m: "m w = (r0, w0)" by (cases "m w")
  show ?thesis
  proof (cases r0)
    case (Inl e)
    with m assms show ?thesis by (simp add: io_defs)
  next
    case (Inr ne)
    obtain r2 w2 where g: "g ne w0 = (r2, w2)" by (cases "g ne w0")
    show ?thesis
    proof (cases r2)
      case (Inl e)
      with m Inr g assms show ?thesis by (simp add: io_defs)
    next
      case names: (Inr ns)
      with m Inr g assms have "ne = ne'" "ns = names"
        by (auto simp: io_defs split: if_splits)
      with g names have "fst (g ne' w0) = Inr names" by simp
      then show ?thesis by blast
    qed
  qed
qed

lemma handleSubscribe_rows:
  assumes run: "handleSubscribe E h uid nm w = (r, w')"
  shows "prefix (subscriptions w) (subscriptions w')"
    and "r = Inr (Some rows) \<Longrightarrow>
          \<exists>(ne :: NewsletterEmail) w0. fst (subscribe E h (address ne) w0) = Inr (map name rows)
            \<and> list_all (\<lambda>x. newsletterEmailId x = Some (ne_id ne)) rows"
proof -
  let ?block = "try_catch
          (bind (bind (NewsletterEmail_findOneBy E uid)
                   (\<lambda>found. case found of
                               Some ne \<Rightarrow> return ne
                             | None \<Rightarrow> createNewsletterEmail_call E uid))
             (\<lambda>ne. bind (subscribe E h (address ne))
                (\<lambda>subscribedNames.
                   if length subscribedNames = 0
                   then bind (logger_info ''Failed to get subscribe response'')
                          (\<lambda>_. return None)
                   else return (Some (ne, subscribedNames)))))
          (\<lambda>error. bind (logger_info ''Failed to handleSubscribe'') (\<lambda>_. return None))"
  have "\<exists>x w1. ?block w = (Inr x, w1)"
    by (rule try_catch_total)
  then obtain x w1 where t: "?block w = (Inr x, w1)"
    by blast
  have "keeps_rows ?block"
    by (auto intro!: keeps_rows_try_catch keeps_rows_bind keeps_rows_NewsletterEmail_findOneBy
          keeps_rows_createNewsletterEmail keeps_rows_subscribe split: option.splits)
  with t have rows1: "subscriptions w1 = subscriptions w"
    by (auto simp: keeps_rows_def dest: spec [of _ w])
  have "prefix (subscriptions w) (subscriptions w')
    \<and> (r = Inr (Some rows) \<longrightarrow>
          (\<exists>(ne :: NewsletterEmail) w0. fst (subscribe E h (address ne) w0) = Inr (map name rows)
            \<and> list_all (\<lambda>x. newsletterEmailId x = Some (ne_id ne)) rows))"
  proof (cases x)
    case None
    with run t have "r = Inr None" "w' = w1"
      by (simp_all add: handleSubscribe_def bind_def return_def)
    with rows1 show ?thesis by simp
  next
    case (Some p)
    obtain ne names where p: "p = (ne, names)" by (cases p)
    from t have "?block w = (Inr (Some (ne, names)), w1)"
      unfolding Some p .
    then have "\<exists>w0. fst (subscribe E h (address ne) w0) = Inr names"
      by (rule pending_from)
    then obtain w0 where call: "fst (subscribe E h (address ne) w0) = Inr names"
      by blast
    obtain rs w2 where s:
      "promise_all (map (\<lambda>n. Subscription_save E (handle_draft uid ne n)) names) w1 = (rs, w2)"
      by (cases "promise_all (map (\<lambda>n. Subscription_save E (handle_draft uid ne n)) names) w1")
    note out = saves_outcome [OF s]
    from run t Some p s have res:
      "r = (case rs of Inl e \<Rightarrow> Inl e | Inr rows \<Rightarrow> Inr (Some rows))" "w' = w2"
      by (simp_all add: handleSubscribe_def bind_def return_def split: sum.splits)
    from saves_append [of w1 E "handle_draft uid ne" names] s rows1 res(2)
    have grow: "prefix (subscriptions w) (subscriptions w')"
      by simp
    show ?thesis
    proof (cases rs)
      case (Inl e)
      with res grow show ?thesis by simp
    next
      case (Inr xs)
      with out have o: "map name xs = names"
        "list_all (\<lambda>x. status x = Active \<and> user x = uid
                           \<and> newsletterEmailId x = Some (ne_id ne)) xs"
        by simp_all
      from o(2) have bound: "list_all (\<lambda>x. newsletterEmailId x = Some (ne_id ne)) xs"
        by (simp add: list_all_iff)
      show ?thesis
      proof (intro conjI impI)
        show "prefix (subscriptions w) (subscriptions w')" by (rule grow)
      next
        assume "r = Inr (Some rows)"
        with res(1) Inr have "rows = xs" by simp
        with call o(1) bound
        have "fst (subscribe E h (address ne) w0) = Inr (map name rows)
            \<and> list_all (\<lambda>x. newsletterEmailId x = Some (ne_id ne)) rows"
          by simp
        then show "\<exists>(ne :: NewsletterEmail) w0. fst (subscribe E h (address ne) w0) = Inr (map name rows)
            \<and> list_all (\<lambda>x. newsletterEmailId x = Some (ne_id ne)) rows"
          by blast
      qed
    qed
  qed
  then show "prefix (subscriptions w) (subscriptions w')"
    and "r = Inr (Some rows) \<Longrightarrow>
          \<exists>(ne :: NewsletterEmail) w0. fst (subscribe E h (address ne) w0) = Inr (map name rows)
            \<and> list_all (\<lambda>x. newsletterEmailId x = Some (ne_id ne)) rows"
    by blast+
qed

lemma handleSubscribe_events:
  "filter is_row_access (emitted w (snd (handleSubscribe E h uid nm w))) = []"
proof -
  from no_row_access_handleSubscribe [of E h uid nm]
  obtain evs where "trace (snd (handleSubscribe E h uid nm w)) = trace w @ evs"
    "filter is_row_access evs = []"
    unfolding no_row_access_def by blast
  then show ?thesis by (simp add: emitted_def)
qed

text \<open>
  C4, as amended. For calls that run one after another, \<open>saveSubscription\<close>,
  \<open>unsubscribe\<close> and \<open>unsubscribeAll\<close> keep (user, name, type) unique over the
  subscription rows, whatever the collaborators do, and \<open>saveSubscription\<close> adds no row
  when its lookup finds one. \<open>handleSubscribe\<close> issues no lookup, update or delete of a
  subscription row; the rows that were there stay as they were, at the front of the
  table; when it returns rows, these are what it appended, at least one, Active and of
  the user, bound to one address and named, in order, by the names the provider call
  returned. It keeps the invariant on a store that rejects an insert with an existing
  (user, name, type).
\<close>

theorem uniqueness_preserved:
  fixes E :: env and inp :: SaveSubscriptionInput and s :: Subscription
    and ne :: NewsletterEmail and h :: handler and w :: world
  assumes "unique_keys w"
  shows "unique_keys (snd (saveSubscription E inp w))
    \<and> (\<forall>ex. find (\<lambda>s. name s = in_name inp \<and> user s = in_userId inp \<and> sub_type s = Newsletter)
                (subscriptions w) = Some ex \<longrightarrow>
            length (subscriptions (snd (saveSubscription E inp w))) = length (subscriptions w))
    \<and> unique_keys (snd (unsubscribe E s w))
    \<and> unique_keys (snd (unsubscribeAll E ne w))
    \<and> (enforces_unique E \<longrightarrow> unique_keys (snd (handleSubscribe E h uid nm w)))
    \<and> filter is_row_access (emitted w (snd (handleSubscribe E h uid nm w))) = []
    \<and> prefix (subscriptions w) (subscriptions (snd (handleSubscribe E h uid nm w)))
    \<and> (\<forall>rows. fst (handleSubscribe E h uid nm w) = Inr (Some rows) \<longrightarrow>
          rows \<noteq> []
          \<and> subscriptions (snd (handleSubscribe E h uid nm w)) = subscriptions w @ rows
          \<and> list_all (\<lambda>x. status x = Active \<and> user x = uid) rows
          \<and> (\<exists>(a :: NewsletterEmail) w0.
                fst (subscribe E h (address a) w0) = Inr (map name rows)
                \<and> list_all (\<lambda>x. newsletterEmailId x = Some (ne_id a)) rows))"
proof (intro conjI allI impI)
  from assms preserves_saveSubscription [of E inp]
  show "unique_keys (snd (saveSubscription E inp w))"
    by (simp add: preserves_unique_def)
next
  fix ex
  assume "find (\<lambda>s. name s = in_name inp \<and> user s = in_userId inp \<and> sub_type s = Newsletter)
                (subscriptions w) = Some ex"
  with saveSubscription_rows [where E = E and inp = inp and w = w]
  show "length (subscriptions (snd (saveSubscription E inp w))) = length (subscriptions w)"
    by auto
next
  from assms preserves_unsubscribe [of E s]
  show "unique_keys (snd (unsubscribe E s w))"
    by (simp add: preserves_unique_def)
next
  from assms preserves_unsubscribeAll [of E ne]
  show "unique_keys (snd (unsubscribeAll E ne w))"
    by (simp add: preserves_unique_def)
next
  assume "enforces_unique E"
  from assms preserves_handleSubscribe [OF this, of h uid nm]
  show "unique_keys (snd (handleSubscribe E h uid nm w))"
    by (simp add: preserves_unique_def)
next
  show "filter is_row_access (emitted w (snd (handleSubscribe E h uid nm w))) = []"
    by (rule handleSubscribe_events)
next
  show "prefix (subscriptions w) (subscriptions (snd (handleSubscribe E h uid nm w)))"
    by (rule handleSubscribe_rows(1) [OF surjective_pairing])
next
  fix rows
  assume ret: "fst (handleSubscribe E h uid nm w) = Inr (Some rows)"
  note out = handleSubscribe_outcomes [OF surjective_pairing, of E h uid nm w]
  from out ret show "rows \<noteq> []" by simp
  from out ret show "subscriptions (snd (handleSubscribe E h uid nm w)) = subscriptions w @ rows"
    by simp
  from out ret have "list_all (\<lambda>x. status x = Active \<and> user x = uid
                         \<and> (\<exists>i. newsletterEmailId x = Some i)) rows"
    by simp
  then show "list_all (\<lambda>x. status x = Active \<and> user x = uid) rows"
    by (simp add: list_all_iff)
  from ret show "\<exists>(a :: NewsletterEmail) w0.
                fst (subscribe E h (address a) w0) = Inr (map name rows)
                \<and> list_all (\<lambda>x. newsletterEmailId x = Some (ne_id a)) rows"
    by (rule handleSubscribe_rows(2) [OF surjective_pairing])
qed

theorem uniqueness_preserved_witness:
  "unique_keys sample_world \<and> enforces_unique strict_env
   \<and> find (\<lambda>s. name s = ''Weekly'' \<and> user s = ''u1'' \<and> sub_type s = Newsletter)
         (subscriptions sample_world) = Some (sample_newsletter\<lparr>newsletterEmail := None\<rparr>)
   \<and> unique_keys
         (snd (saveSubscription strict_env (sample_input\<lparr>in_name := ''Weekly''\<rparr>) sample_world))
   \<and> length (subscriptions
         (snd (saveSubscription strict_env (sample_input\<lparr>in_name := ''Weekly''\<rparr>) sample_world)))
       = length (subscriptions sample_world)
   \<and> unique_keys (snd (unsubscribe strict_env sample_newsletter sample_world))
   \<and> unique_keys (snd (unsubscribeAll strict_env inbox sample_world))
   \<and> unique_keys
       (snd (handleSubscribe strict_env MorningBrewHandler ''u1'' ''morning_brew'' sample_world))
   \<and> filter is_row_access
       (emitted sample_world
          (snd (handleSubscribe strict_env MorningBrewHandler ''u1'' ''morning_brew''
                  sample_world))) = []
   \<and> fst (handleSubscribe strict_env MorningBrewHandler ''u1'' ''morning_brew'' sample_world)
       = Inr (Some [\<lparr>sub_id = ''iii'', name = ''Morning Brew'', sub_type = Newsletter,
                      status = Active, unsubscribeMailTo = None, unsubscribeHttpUrl = None,
                      icon = None, lastFetchedAt = None, user = ''u1'',
                      newsletterEmailId = Some ''ne1'', newsletterEmail = None\<rparr>])
   \<and> fst (subscribe strict_env MorningBrewHandler (address inbox) sample_world)
       = Inr [''Morning Brew'']
   \<and> subscriptions
       (snd (handleSubscribe strict_env MorningBrewHandler ''u1'' ''morning_brew'' sample_world))
       = subscriptions sample_world
         @ [\<lparr>sub_id = ''iii'', name = ''Morning Brew'', sub_type = Newsletter,
              status = Active, unsubscribeMailTo = None, unsubscribeHttpUrl = None,
              icon = None, lastFetchedAt = None, user = ''u1'',
              newsletterEmailId = Some ''ne1'', newsletterEmail = None\<rparr>]"
proof -
  let ?row = "\<lparr>sub_id = ''iii'', name = ''Morning Brew'', sub_type = Newsletter,
                status = Active, unsubscribeMailTo = None, unsubscribeHttpUrl = None,
                icon = None, lastFetchedAt = None, user = ''u1'',
                newsletterEmailId = Some ''ne1'', newsletterEmail = None\<rparr>"
  have u: "unique_keys sample_world"
    by code_simp
  have found: "find (\<lambda>s. name s = in_name (sample_input\<lparr>in_name := ''Weekly''\<rparr>)
                    \<and> user s = in_userId (sample_input\<lparr>in_name := ''Weekly''\<rparr>)
                    \<and> sub_type s = Newsletter)
         (subscriptions sample_world) = Some (sample_newsletter\<lparr>newsletterEmail := None\<rparr>)"
    by code_simp
  have fields: "in_name (sample_input\<lparr>in_name := ''Weekly''\<rparr>) = ''Weekly''"
    "in_userId (sample_input\<lparr>in_name := ''Weekly''\<rparr>) = ''u1''"
    by (simp_all add: sample_input_def)
  have ret: "fst (handleSubscribe strict_env MorningBrewHandler ''u1'' ''morning_brew''
                    sample_world) = Inr (Some [?row])"
    by code_simp
  have call: "fst (subscribe strict_env MorningBrewHandler (address inbox) sample_world)
       = Inr [''Morning Brew'']"
    by code_simp
  note all = uniqueness_preserved
         [OF u, where E = strict_env and h = MorningBrewHandler and uid = "''u1''"
            and nm = "''morning_brew''" and inp = "sample_input\<lparr>in_name := ''Weekly''\<rparr>"
            and s = sample_newsletter and ne = inbox]
  from all found have same: "length (subscriptions
         (snd (saveSubscription strict_env (sample_input\<lparr>in_name := ''Weekly''\<rparr>) sample_world)))
       = length (subscriptions sample_world)"
    by blast
  from all enforces_unique_strict_env have signup: "unique_keys
       (snd (handleSubscribe strict_env MorningBrewHandler ''u1'' ''morning_brew'' sample_world))"
    by blast
  from all have rest: "unique_keys
         (snd (saveSubscription strict_env (sample_input\<lparr>in_name := ''Weekly''\<rparr>) sample_world))"
    "unique_keys (snd (unsubscribe strict_env sample_newsletter sample_world))"
    "unique_keys (snd (unsubscribeAll strict_env inbox sample_world))"
    "filter is_row_access
       (emitted sample_world
          (snd (handleSubscribe strict_env MorningBrewHandler ''u1'' ''morning_brew''
                  sample_world))) = []"
    by blast+
  from all ret have added: "subscriptions
       (snd (handleSubscribe strict_env MorningBrewHandler ''u1'' ''morning_brew'' sample_world))
       = subscriptions sample_world @ [?row]"
    by blast
  from found have found': "find (\<lambda>s. name s = ''Weekly'' \<and> user s = ''u1'' \<and> sub_type s = Newsletter)
         (subscriptions sample_world) = Some (sample_newsletter\<lparr>newsletterEmail := None\<rparr>)"
    unfolding fields .
  from u enforces_unique_strict_env found' rest(1) same rest(2,3) signup rest(4) ret call added
  show ?thesis
    by (intro conjI)
qed

text \<open>
  C4 as stated fails for \<open>handleSubscribe\<close>. On a store that accepts every
  insert, subscribing to Morning Brew twice leaves two rows with the same (user, name,
  type). On a store that enforces the constraint, the second call changes no row (it
  updates nothing) and its promise is rejected.
\<close>

theorem handleSubscribe_duplicates:
  "unique_keys empty_world
   \<and> map key_of
       (subscriptions
          (snd (handleSubscribe sample_env MorningBrewHandler ''u1'' ''morning_brew''
             (snd (handleSubscribe sample_env MorningBrewHandler ''u1'' ''morning_brew''
                empty_world)))))
       = [(''u1'', ''Morning Brew'', Newsletter), (''u1'', ''Morning Brew'', Newsletter)]
   \<and> \<not> unique_keys
          (snd (handleSubscribe sample_env MorningBrewHandler ''u1'' ''morning_brew''
             (snd (handleSubscribe sample_env MorningBrewHandler ''u1'' ''morning_brew''
                empty_world))))
   \<and> fst (handleSubscribe strict_env MorningBrewHandler ''u1'' ''morning_brew''
            (snd (handleSubscribe strict_env MorningBrewHandler ''u1'' ''morning_brew''
               empty_world)))
       = Inl (Thrown ''duplicate key'')
   \<and> subscriptions
        (snd (handleSubscribe strict_env MorningBrewHandler ''u1'' ''morning_brew''
           (snd (handleSubscribe strict_env MorningBrewHandler ''u1'' ''morning_brew''
              empty_world))))
       = subscriptions
           (snd (handleSubscribe strict_env MorningBrewHandler ''u1'' ''morning_brew''
              empty_world))"
  by code_simp

text \<open>
  C5 fails on the code where a save is rejected. With a store that rejects the insert,
  \<open>handleSubscribe\<close> for Morning Brew does not return \<open>null\<close>: the rejection of the
  save is the outcome of the call, and the catch clause has not run (its log line is
  not among the events).
\<close>

theorem handleSubscribe_rejection_escapes:
  "fst (handleSubscribe rejecting_env MorningBrewHandler ''u1'' ''morning_brew'' empty_world)
     = Inl (Thrown ''duplicate key'')
   \<and> filter (\<lambda>e. e = Log ''Failed to handleSubscribe'')
        (emitted empty_world
           (snd (handleSubscribe rejecting_env MorningBrewHandler ''u1'' ''morning_brew''
              empty_world))) = []"
  by code_simp

section \<open>The unsubscribe-address parser\<close>

text \<open>Characters the URL parser leaves as they are, wherever they stand.\<close>

lemma plain_char:
  assumes "\<not> in_query_percent_encode_set c"
  shows "\<not> c0_control_or_space c" "\<not> tab_or_newline c" "c \<noteq> CHR ''#''"
  using assms
  by (auto simp: in_query_percent_encode_set_def c0_control_or_space_def tab_or_newline_def)

lemma percent_encode_query_plain:
  "list_all (\<lambda>c. \<not> in_query_percent_encode_set c) q \<Longrightarrow> percent_encode_query q = q"
  by (induction q) (simp_all add: percent_encode_query_def)

lemma takeWhile_no_hash:
  assumes "list_all (\<lambda>c. \<not> in_query_percent_encode_set c) s"
  shows "takeWhile (not_delim ''?#'') s = takeWhile (\<lambda>c. c \<noteq> CHR ''?'') s"
    and "dropWhile (not_delim ''?#'') s = dropWhile (\<lambda>c. c \<noteq> CHR ''?'') s"
    and "takeWhile (not_delim ''#'') s = s"
  using assms
  by (induction s) (auto simp: not_delim_def plain_char)

lemma replace_empty_pattern: "replace s [] [] = s"
  by (cases s) simp_all

lemma replace_query:
  "CHR ''?'' \<notin> set a \<Longrightarrow> replace (a @ CHR ''?'' # q) (CHR ''?'' # q) [] = a"
  by (induction a) auto


lemma takeWhile_first_mark:
  assumes "x \<notin> set a"
  shows "takeWhile (\<lambda>c. c \<noteq> x) (a @ x # q) = a"
    and "dropWhile (\<lambda>c. c \<noteq> x) (a @ x # q) = x # q"
    and "takeWhile (\<lambda>c. c \<noteq> x) a = a"
    and "dropWhile (\<lambda>c. c \<noteq> x) a = []"
  using assms by (induction a) auto

text \<open>The parse of any input. Without a question mark there is no query. With one, an
  address without \<open>#\<close> and a query of plain characters, not empty, the cleaning only
  drops the tabs and newlines of the address, and the query is what follows the first
  question mark, as it stands.\<close>

lemma takeWhile_both:
  "takeWhile (not_delim ''/'') (takeWhile (not_delim ''?#'') r) =
     takeWhile (\<lambda>c. c \<noteq> CHR ''#'' \<and> c \<noteq> CHR ''/'') (takeWhile (\<lambda>c. c \<noteq> CHR ''?'') r)"
  by (induction r) (auto simp: not_delim_def)

lemma clean_input_query:
  assumes "list_all (\<lambda>c. \<not> in_query_percent_encode_set c) q" and "q \<noteq> []"
  shows "clean_input (a @ CHR ''?'' # q) = filter (\<lambda>c. \<not> tab_or_newline c) a @ CHR ''?'' # q"
proof -
  from assms(2) obtain c cs where r: "rev q = c # cs"
    by (cases "rev q") auto
  then have "c \<in> set q" by (metis list.set_intros(1) set_rev)
  with assms(1) have "\<not> c0_control_or_space c"
    by (simp add: list_all_iff plain_char)
  with r have "dropWhile c0_control_or_space (rev (a @ CHR ''?'' # q)) = rev (a @ CHR ''?'' # q)"
    by simp
  moreover from assms(1) have "filter (\<lambda>c. \<not> tab_or_newline c) q = q"
    by (simp add: list_all_iff plain_char)
  moreover have "\<not> tab_or_newline (CHR ''?'')"
    by (simp add: tab_or_newline_def)
  ultimately show ?thesis
    by (simp add: clean_input_def)
qed

lemma clean_input_subset: "set (clean_input s) \<subseteq> set s"
proof -
  have "set (dropWhile c0_control_or_space (rev s)) \<subseteq> set (rev s)"
    by (rule set_dropWhileD [THEN subsetI])
  then show ?thesis
    by (auto simp: clean_input_def)
qed

lemma dropWhile_no_query:
  assumes "CHR ''?'' \<notin> set r"
  shows "(case dropWhile (not_delim ''?#'') r of
            [] \<Rightarrow> None
          | c # cs \<Rightarrow> if c = CHR ''?'' then Some (f cs) else None) = None"
  using assms by (induction r) (auto simp: not_delim_def)

lemma new_URL_no_query:
  assumes "CHR ''?'' \<notin> set s"
  shows "new_URL ipv6 s =
           (if \<not> authority_ok ipv6
                   (takeWhile (\<lambda>c. c \<noteq> CHR ''#'' \<and> c \<noteq> CHR ''/'') (clean_input s))
            then Inl InvalidURL else Inr \<lparr>query = None\<rparr>)"
proof -
  from assms clean_input_subset [of s] have noq: "CHR ''?'' \<notin> set (clean_input s)"
    by auto
  show ?thesis
    unfolding new_URL_def Let_def takeWhile_both dropWhile_no_query [OF noq]
      takeWhile_first_mark(3) [OF noq]
    by simp
qed

lemma new_URL_query:
  assumes noq: "CHR ''?'' \<notin> set a" and noh: "CHR ''#'' \<notin> set a"
    and plain: "list_all (\<lambda>c. \<not> in_query_percent_encode_set c) q" and some: "q \<noteq> []"
  shows "new_URL ipv6 (a @ CHR ''?'' # q) =
           (if \<not> authority_ok ipv6
                   (takeWhile (\<lambda>c. c \<noteq> CHR ''#'' \<and> c \<noteq> CHR ''/'')
                      (filter (\<lambda>c. \<not> tab_or_newline c) a))
            then Inl InvalidURL else Inr \<lparr>query = Some q\<rparr>)"
proof -
  let ?a = "filter (\<lambda>c. \<not> tab_or_newline c) a"
  from noq noh have no: "CHR ''?'' \<notin> set ?a" "CHR ''#'' \<notin> set ?a"
    by simp_all
  then have front: "takeWhile (not_delim ''?#'') (?a @ CHR ''?'' # q) = ?a"
    and rest: "dropWhile (not_delim ''?#'') (?a @ CHR ''?'' # q) = CHR ''?'' # q"
    by (induction ?a) (auto simp: not_delim_def takeWhile_append dropWhile_append)
  show ?thesis
    unfolding new_URL_def Let_def clean_input_query [OF plain some] takeWhile_both
      takeWhile_first_mark(1) [OF no(1)] rest front
    by (simp add: takeWhile_no_hash(3) [OF plain] percent_encode_query_plain [OF plain]
          takeWhile_first_mark(3) [OF no(1)] del: filter.simps)
qed

text \<open>
  C7, as amended. Let \<open>a\<close> be the input up to its first question mark and \<open>q\<close> what
  follows it. Nothing is asked of the address when there is no question mark. When there
  is one, \<open>a\<close> has no \<open>#\<close>, and \<open>q\<close> is not empty and made of characters the URL parser
  leaves as they are (printable ASCII other than space, \<open>"\<close>, \<open>#\<close>, \<open><\<close> and \<open>>\<close>). The
  authority the URL parser sees is the address up to its first \<open>#\<close> or \<open>/\<close>, without its
  tabs and newlines and, when no query follows, without the trailing spaces and control
  characters of the input. When the parser rejects it, the constructor's error is
  raised. Otherwise the function fails with \<open>InvalidAddress\<close> carrying the input exactly
  when \<open>a\<close> is empty or has no \<open>@\<close>, and else returns \<open>to = a\<close> and as \<open>subject\<close> the
  decoded value of the first \<open>subject\<close> parameter of \<open>q\<close> when that is present and not
  empty, and \<open>Unsubscribe\<close> otherwise. The function has no state and no effect: it is a
  function of its input (and of the platform's IPv6 parser) alone.
\<close>

theorem parseUnsubscribeMailTo_plain:
  fixes ipv6 :: "string \<Rightarrow> bool" and s :: string
  assumes plain: "list_all (\<lambda>c. \<not> in_query_percent_encode_set c)
                    (drop (Suc (length (takeWhile (\<lambda>c. c \<noteq> CHR ''?'') s))) s)"
    and marked: "CHR ''?'' \<in> set s \<longrightarrow>
                   CHR ''#'' \<notin> set (takeWhile (\<lambda>c. c \<noteq> CHR ''?'') s)
                   \<and> drop (Suc (length (takeWhile (\<lambda>c. c \<noteq> CHR ''?'') s))) s \<noteq> []"
  shows "parseUnsubscribeMailTo ipv6 s =
     (let a = takeWhile (\<lambda>c. c \<noteq> CHR ''?'') s;
          q = drop (Suc (length a)) s;
          seen = takeWhile (\<lambda>c. c \<noteq> CHR ''#'' \<and> c \<noteq> CHR ''/'')
                   (if CHR ''?'' \<in> set s then filter (\<lambda>c. \<not> tab_or_newline c) a
                    else clean_input s)
      in if \<not> authority_ok ipv6 seen then Inl InvalidURL
         else if a = [] \<or> CHR ''@'' \<notin> set a then Inl (InvalidAddress s)
         else Inr \<lparr>to = a,
                   subject = (case map_of (urlencoded_parse q) ''subject'' of
                                None \<Rightarrow> ''Unsubscribe''
                              | Some v \<Rightarrow> if v = [] then ''Unsubscribe'' else v)\<rparr>)"
proof (cases "CHR ''?'' \<in> set s")
  case False
  have nothing: "urlencoded_parse [] = []"
    by (simp add: urlencoded_parse_def)
  show ?thesis
    unfolding parseUnsubscribeMailTo_def new_URL_no_query [OF False] Let_def
      takeWhile_first_mark(3) [OF False] if_not_P [OF False]
    by (simp add: search_def searchParams_get_def replace_empty_pattern str_includes_def nothing)
next
  case True
  then obtain a q where sq: "s = a @ CHR ''?'' # q" and noq: "CHR ''?'' \<notin> set a"
    by (auto dest: split_list_first)
  from marked True have noh: "CHR ''#'' \<notin> set a" and some: "q \<noteq> []"
    unfolding sq takeWhile_first_mark(1) [OF noq] by simp_all
  from plain have q: "list_all (\<lambda>c. \<not> in_query_percent_encode_set c) q"
    unfolding sq takeWhile_first_mark(1) [OF noq] by simp
  have mark: "CHR ''?'' \<in> set (a @ CHR ''?'' # q)"
    by simp
  show ?thesis
    unfolding sq parseUnsubscribeMailTo_def Let_def takeWhile_first_mark(1) [OF noq]
      new_URL_query [OF noq noh q some] if_P [OF mark]
    using some
    by (simp add: search_def searchParams_get_def replace_query [OF noq] str_includes_def
          del: filter.simps)
qed

theorem parseUnsubscribeMailTo_plain_witness:
  "list_all (\<lambda>c. \<not> in_query_percent_encode_set c)
           (drop (Suc (length (takeWhile (\<lambda>c. c \<noteq> CHR ''?'') ''user@example.com?subject=Bye''))) ''user@example.com?subject=Bye'')
   \<and> parseUnsubscribeMailTo (\<lambda>_. False) ''user@example.com?subject=Bye''
       = Inr \<lparr>to = ''user@example.com'', subject = ''Bye''\<rparr>
   \<and> parseUnsubscribeMailTo (\<lambda>_. False) ''user@example.com''
       = Inr \<lparr>to = ''user@example.com'', subject = ''Unsubscribe''\<rparr>
   \<and> parseUnsubscribeMailTo (\<lambda>_. False) ''nodomain''
       = Inl (InvalidAddress ''nodomain'')
   \<and> parseUnsubscribeMailTo (\<lambda>_. False) ''John Doe@example.com?subject=Bye''
       = Inr \<lparr>to = ''John Doe@example.com'', subject = ''Bye''\<rparr>
   \<and> parseUnsubscribeMailTo (\<lambda>_. False) (char_of (195::nat) # char_of (169::nat) # ''@example.com?subject=Bye'')
       = Inr \<lparr>to = char_of (195::nat) # char_of (169::nat) # ''@example.com'', subject = ''Bye''\<rparr>
   \<and> parseUnsubscribeMailTo (\<lambda>_. False) ''user@example.com#top''
       = Inr \<lparr>to = ''user@example.com#top'', subject = ''Unsubscribe''\<rparr>
   \<and> parseUnsubscribeMailTo (\<lambda>_. False) ''user@exa mple.com?subject=Bye''
       = Inl InvalidURL"
proof -
  have p1: "list_all (\<lambda>c. \<not> in_query_percent_encode_set c)
           (drop (Suc (length (takeWhile (\<lambda>c. c \<noteq> CHR ''?'') ''user@example.com?subject=Bye''))) ''user@example.com?subject=Bye'')"
    by code_simp
  have m1: "CHR ''?'' \<in> set ''user@example.com?subject=Bye'' \<longrightarrow>
           CHR ''#'' \<notin> set (takeWhile (\<lambda>c. c \<noteq> CHR ''?'') ''user@example.com?subject=Bye'')
           \<and> drop (Suc (length (takeWhile (\<lambda>c. c \<noteq> CHR ''?'') ''user@example.com?subject=Bye''))) ''user@example.com?subject=Bye'' \<noteq> []"
    by code_simp
  have r1: "(let a = takeWhile (\<lambda>c. c \<noteq> CHR ''?'') ''user@example.com?subject=Bye'';
          q = drop (Suc (length a)) ''user@example.com?subject=Bye'';
          seen = takeWhile (\<lambda>c. c \<noteq> CHR ''#'' \<and> c \<noteq> CHR ''/'')
                   (if CHR ''?'' \<in> set ''user@example.com?subject=Bye'' then filter (\<lambda>c. \<not> tab_or_newline c) a
                    else clean_input ''user@example.com?subject=Bye'')
      in if \<not> authority_ok (\<lambda>_. False) seen then Inl InvalidURL
         else if a = [] \<or> CHR ''@'' \<notin> set a then Inl (InvalidAddress ''user@example.com?subject=Bye'')
         else Inr \<lparr>to = a,
                   subject = (case map_of (urlencoded_parse q) ''subject'' of
                                None \<Rightarrow> ''Unsubscribe''
                              | Some v \<Rightarrow> if v = [] then ''Unsubscribe'' else v)\<rparr>)
      = Inr \<lparr>to = ''user@example.com'', subject = ''Bye''\<rparr>"
    by code_simp
  from parseUnsubscribeMailTo_plain [OF p1 m1, of "\<lambda>_. False"] r1
  have e1: "parseUnsubscribeMailTo (\<lambda>_. False) ''user@example.com?subject=Bye''
       = Inr \<lparr>to = ''user@example.com'', subject = ''Bye''\<rparr>"
    by (rule trans)
  have p2: "list_all (\<lambda>c. \<not> in_query_percent_encode_set c)
           (drop (Suc (length (takeWhile (\<lambda>c. c \<noteq> CHR ''?'') ''user@example.com''))) ''user@example.com'')"
    by code_simp
  have m2: "CHR ''?'' \<in> set ''user@example.com'' \<longrightarrow>
           CHR ''#'' \<notin> set (takeWhile (\<lambda>c. c \<noteq> CHR ''?'') ''user@example.com'')
           \<and> drop (Suc (length (takeWhile (\<lambda>c. c \<noteq> CHR ''?'') ''user@example.com''))) ''user@example.com'' \<noteq> []"
    by code_simp
  have r2: "(let a = takeWhile (\<lambda>c. c \<noteq> CHR ''?'') ''user@example.com'';
          q = drop (Suc (length a)) ''user@example.com'';
          seen = takeWhile (\<lambda>c. c \<noteq> CHR ''#'' \<and> c \<noteq> CHR ''/'')
                   (if CHR ''?'' \<in> set ''user@example.com'' then filter (\<lambda>c. \<not> tab_or_newline c) a
                    else clean_input ''user@example.com'')
      in if \<not> authority_ok (\<lambda>_. False) seen then Inl InvalidURL
         else if a = [] \<or> CHR ''@'' \<notin> set a then Inl (InvalidAddress ''user@example.com'')
         else Inr \<lparr>to = a,
                   subject = (case map_of (urlencoded_parse q) ''subject'' of
                                None \<Rightarrow> ''Unsubscribe''
                              | Some v \<Rightarrow> if v = [] then ''Unsubscribe'' else v)\<rparr>)
      = Inr \<lparr>to = ''user@example.com'', subject = ''Unsubscribe''\<rparr>"
    by code_simp
  from parseUnsubscribeMailTo_plain [OF p2 m2, of "\<lambda>_. False"] r2
  have e2: "parseUnsubscribeMailTo (\<lambda>_. False) ''user@example.com''
       = Inr \<lparr>to = ''user@example.com'', subject = ''Unsubscribe''\<rparr>"
    by (rule trans)
  have p3: "list_all (\<lambda>c. \<not> in_query_percent_encode_set c)
           (drop (Suc (length (takeWhile (\<lambda>c. c \<noteq> CHR ''?'') ''nodomain''))) ''nodomain'')"
    by code_simp
  have m3: "CHR ''?'' \<in> set ''nodomain'' \<longrightarrow>
           CHR ''#'' \<notin> set (takeWhile (\<lambda>c. c \<noteq> CHR ''?'') ''nodomain'')
           \<and> drop (Suc (length (takeWhile (\<lambda>c. c \<noteq> CHR ''?'') ''nodomain''))) ''nodomain'' \<noteq> []"
    by code_simp
  have r3: "(let a = takeWhile (\<lambda>c. c \<noteq> CHR ''?'') ''nodomain'';
          q = drop (Suc (length a)) ''nodomain'';
          seen = takeWhile (\<lambda>c. c \<noteq> CHR ''#'' \<and> c \<noteq> CHR ''/'')
                   (if CHR ''?'' \<in> set ''nodomain'' then filter (\<lambda>c. \<not> tab_or_newline c) a
                    else clean_input ''nodomain'')
      in if \<not> authority_ok (\<lambda>_. False) seen then Inl InvalidURL
         else if a = [] \<or> CHR ''@'' \<notin> set a then Inl (InvalidAddress ''nodomain'')
         else Inr \<lparr>to = a,
                   subject = (case map_of (urlencoded_parse q) ''subject'' of
                                None \<Rightarrow> ''Unsubscribe''
                              | Some v \<Rightarrow> if v = [] then ''Unsubscribe'' else v)\<rparr>)
      = Inl (InvalidAddress ''nodomain'')"
    by code_simp
  from parseUnsubscribeMailTo_plain [OF p3 m3, of "\<lambda>_. False"] r3
  have e3: "parseUnsubscribeMailTo (\<lambda>_. False) ''nodomain''
       = Inl (InvalidAddress ''nodomain'')"
    by (rule trans)
  have p4: "list_all (\<lambda>c. \<not> in_query_percent_encode_set c)
           (drop (Suc (length (takeWhile (\<lambda>c. c \<noteq> CHR ''?'') ''John Doe@example.com?subject=Bye''))) ''John Doe@example.com?subject=Bye'')"
    by code_simp
  have m4: "CHR ''?'' \<in> set ''John Doe@example.com?subject=Bye'' \<longrightarrow>
           CHR ''#'' \<notin> set (takeWhile (\<lambda>c. c \<noteq> CHR ''?'') ''John Doe@example.com?subject=Bye'')
           \<and> drop (Suc (length (takeWhile (\<lambda>c. c \<noteq> CHR ''?'') ''John Doe@example.com?subject=Bye''))) ''John Doe@example.com?subject=Bye'' \<noteq> []"
    by code_simp
  have r4: "(let a = takeWhile (\<lambda>c. c \<noteq> CHR ''?'') ''John Doe@example.com?subject=Bye'';
          q = drop (Suc (length a)) ''John Doe@example.com?subject=Bye'';
          seen = takeWhile (\<lambda>c. c \<noteq> CHR ''#'' \<and> c \<noteq> CHR ''/'')
                   (if CHR ''?'' \<in> set ''John Doe@example.com?subject=Bye'' then filter (\<lambda>c. \<not> tab_or_newline c) a
                    else clean_input ''John Doe@example.com?subject=Bye'')
      in if \<not> authority_ok (\<lambda>_. False) seen then Inl InvalidURL
         else if a = [] \<or> CHR ''@'' \<notin> set a then Inl (InvalidAddress ''John Doe@example.com?subject=Bye'')
         else Inr \<lparr>to = a,
                   subject = (case map_of (urlencoded_parse q) ''subject'' of
                                None \<Rightarrow> ''Unsubscribe''
                              | Some v \<Rightarrow> if v = [] then ''Unsubscribe'' else v)\<rparr>)
      = Inr \<lparr>to = ''John Doe@example.com'', subject = ''Bye''\<rparr>"
    by code_simp
  from parseUnsubscribeMailTo_plain [OF p4 m4, of "\<lambda>_. False"] r4
  have e4: "parseUnsubscribeMailTo (\<lambda>_. False) ''John Doe@example.com?subject=Bye''
       = Inr \<lparr>to = ''John Doe@example.com'', subject = ''Bye''\<rparr>"
    by (rule trans)
  have p5: "list_all (\<lambda>c. \<not> in_query_percent_encode_set c)
           (drop (Suc (length (takeWhile (\<lambda>c. c \<noteq> CHR ''?'') (char_of (195::nat) # char_of (169::nat) # ''@example.com?subject=Bye'')))) (char_of (195::nat) # char_of (169::nat) # ''@example.com?subject=Bye''))"
    by code_simp
  have m5: "CHR ''?'' \<in> set (char_of (195::nat) # char_of (169::nat) # ''@example.com?subject=Bye'') \<longrightarrow>
           CHR ''#'' \<notin> set (takeWhile (\<lambda>c. c \<noteq> CHR ''?'') (char_of (195::nat) # char_of (169::nat) # ''@example.com?subject=Bye''))
           \<and> drop (Suc (length (takeWhile (\<lambda>c. c \<noteq> CHR ''?'') (char_of (195::nat) # char_of (169::nat) # ''@example.com?subject=Bye'')))) (char_of (195::nat) # char_of (169::nat) # ''@example.com?subject=Bye'') \<noteq> []"
    by code_simp
  have r5: "(let a = takeWhile (\<lambda>c. c \<noteq> CHR ''?'') (char_of (195::nat) # char_of (169::nat) # ''@example.com?subject=Bye'');
          q = drop (Suc (length a)) (char_of (195::nat) # char_of (169::nat) # ''@example.com?subject=Bye'');
          seen = takeWhile (\<lambda>c. c \<noteq> CHR ''#'' \<and> c \<noteq> CHR ''/'')
                   (if CHR ''?'' \<in> set (char_of (195::nat) # char_of (169::nat) # ''@example.com?subject=Bye'') then filter (\<lambda>c. \<not> tab_or_newline c) a
                    else clean_input (char_of (195::nat) # char_of (169::nat) # ''@example.com?subject=Bye''))
      in if \<not> authority_ok (\<lambda>_. False) seen then Inl InvalidURL
         else if a = [] \<or> CHR ''@'' \<notin> set a then Inl (InvalidAddress (char_of (195::nat) # char_of (169::nat) # ''@example.com?subject=Bye''))
         else Inr \<lparr>to = a,
                   subject = (case map_of (urlencoded_parse q) ''subject'' of
                                None \<Rightarrow> ''Unsubscribe''
                              | Some v \<Rightarrow> if v = [] then ''Unsubscribe'' else v)\<rparr>)
      = Inr \<lparr>to = char_of (195::nat) # char_of (169::nat) # ''@example.com'', subject = ''Bye''\<rparr>"
    by code_simp
  from parseUnsubscribeMailTo_plain [OF p5 m5, of "\<lambda>_. False"] r5
  have e5: "parseUnsubscribeMailTo (\<lambda>_. False) (char_of (195::nat) # char_of (169::nat) # ''@example.com?subject=Bye'')
       = Inr \<lparr>to = char_of (195::nat) # char_of (169::nat) # ''@example.com'', subject = ''Bye''\<rparr>"
    by (rule trans)
  have p6: "list_all (\<lambda>c. \<not> in_query_percent_encode_set c)
           (drop (Suc (length (takeWhile (\<lambda>c. c \<noteq> CHR ''?'') ''user@example.com#top''))) ''user@example.com#top'')"
    by code_simp
  have m6: "CHR ''?'' \<in> set ''user@example.com#top'' \<longrightarrow>
           CHR ''#'' \<notin> set (takeWhile (\<lambda>c. c \<noteq> CHR ''?'') ''user@example.com#top'')
           \<and> drop (Suc (length (takeWhile (\<lambda>c. c \<noteq> CHR ''?'') ''user@example.com#top''))) ''user@example.com#top'' \<noteq> []"
    by code_simp
  have r6: "(let a = takeWhile (\<lambda>c. c \<noteq> CHR ''?'') ''user@example.com#top'';
          q = drop (Suc (length a)) ''user@example.com#top'';
          seen = takeWhile (\<lambda>c. c \<noteq> CHR ''#'' \<and> c \<noteq> CHR ''/'')
                   (if CHR ''?'' \<in> set ''user@example.com#top'' then filter (\<lambda>c. \<not> tab_or_newline c) a
                    else clean_input ''user@example.com#top'')
      in if \<not> authority_ok (\<lambda>_. False) seen then Inl InvalidURL
         else if a = [] \<or> CHR ''@'' \<notin> set a then Inl (InvalidAddress ''user@example.com#top'')
         else Inr \<lparr>to = a,
                   subject = (case map_of (urlencoded_parse q) ''subject'' of
                                None \<Rightarrow> ''Unsubscribe''
                              | Some v \<Rightarrow> if v = [] then ''Unsubscribe'' else v)\<rparr>)
      = Inr \<lparr>to = ''user@example.com#top'', subject = ''Unsubscribe''\<rparr>"
    by code_simp
  from parseUnsubscribeMailTo_plain [OF p6 m6, of "\<lambda>_. False"] r6
  have e6: "parseUnsubscribeMailTo (\<lambda>_. False) ''user@example.com#top''
       = Inr \<lparr>to = ''user@example.com#top'', subject = ''Unsubscribe''\<rparr>"
    by (rule trans)
  have p7: "list_all (\<lambda>c. \<not> in_query_percent_encode_set c)
           (drop (Suc (length (takeWhile (\<lambda>c. c \<noteq> CHR ''?'') ''user@exa mple.com?subject=Bye''))) ''user@exa mple.com?subject=Bye'')"
    by code_simp
  have m7: "CHR ''?'' \<in> set ''user@exa mple.com?subject=Bye'' \<longrightarrow>
           CHR ''#'' \<notin> set (takeWhile (\<lambda>c. c \<noteq> CHR ''?'') ''user@exa mple.com?subject=Bye'')
           \<and> drop (Suc (length (takeWhile (\<lambda>c. c \<noteq> CHR ''?'') ''user@exa mple.com?subject=Bye''))) ''user@exa mple.com?subject=Bye'' \<noteq> []"
    by code_simp
  have r7: "(let a = takeWhile (\<lambda>c. c \<noteq> CHR ''?'') ''user@exa mple.com?subject=Bye'';
          q = drop (Suc (length a)) ''user@exa mple.com?subject=Bye'';
          seen = takeWhile (\<lambda>c. c \<noteq> CHR ''#'' \<and> c \<noteq> CHR ''/'')
                   (if CHR ''?'' \<in> set ''user@exa mple.com?subject=Bye'' then filter (\<lambda>c. \<not> tab_or_newline c) a
                    else clean_input ''user@exa mple.com?subject=Bye'')
      in if \<not> authority_ok (\<lambda>_. False) seen then Inl InvalidURL
         else if a = [] \<or> CHR ''@'' \<notin> set a then Inl (InvalidAddress ''user@exa mple.com?subject=Bye'')
         else Inr \<lparr>to = a,
                   subject = (case map_of (urlencoded_parse q) ''subject'' of
                                None \<Rightarrow> ''Unsubscribe''
                              | Some v \<Rightarrow> if v = [] then ''Unsubscribe'' else v)\<rparr>)
      = Inl InvalidURL"
    by code_simp
  from parseUnsubscribeMailTo_plain [OF p7 m7, of "\<lambda>_. False"] r7
  have e7: "parseUnsubscribeMailTo (\<lambda>_. False) ''user@exa mple.com?subject=Bye''
       = Inl InvalidURL"
    by (rule trans)
  from p1 e1 e2 e3 e4 e5 e6 e7 show ?thesis
    by (intro conjI)
qed

text \<open>
  C7 as stated fails in these ways. A \<open>subject\<close> parameter that is present and empty
  does not become the subject: \<open>x || 'Unsubscribe'\<close> takes the default. And the query is
  removed by replacing \<open>parsed.search\<close>, which is the query as the URL parser re-encodes
  it: a query with a space is not found in the input, and \<open>to\<close> keeps it; after a bare
  question mark \<open>search\<close> is empty and \<open>to\<close> keeps the question mark; of a query followed
  by a fragment only the query is removed; and a \<open>#\<close> before the question mark makes the
  rest a fragment, so there is no query and \<open>to\<close> is the whole input.
\<close>

theorem parseUnsubscribeMailTo_not_as_claimed:
  "searchParams_get \<lparr>query = Some ''subject=''\<rparr> ''subject'' = Some []
   \<and> new_URL (\<lambda>_. False) ''user@example.com?subject='' = Inr \<lparr>query = Some ''subject=''\<rparr>
   \<and> parseUnsubscribeMailTo (\<lambda>_. False) ''user@example.com?subject=''
       = Inr \<lparr>to = ''user@example.com'', subject = ''Unsubscribe''\<rparr>
   \<and> search \<lparr>query = Some ''subject=Please%20unsubscribe''\<rparr> = ''?subject=Please%20unsubscribe''
   \<and> new_URL (\<lambda>_. False) ''user@example.com?subject=Please unsubscribe''
       = Inr \<lparr>query = Some ''subject=Please%20unsubscribe''\<rparr>
   \<and> parseUnsubscribeMailTo (\<lambda>_. False) ''user@example.com?subject=Please unsubscribe''
       = Inr \<lparr>to = ''user@example.com?subject=Please unsubscribe'',
              subject = ''Please unsubscribe''\<rparr>
   \<and> parseUnsubscribeMailTo (\<lambda>_. False) ''user@example.com?''
       = Inr \<lparr>to = ''user@example.com?'', subject = ''Unsubscribe''\<rparr>
   \<and> parseUnsubscribeMailTo (\<lambda>_. False) ''user@example.com?subject=Bye#x''
       = Inr \<lparr>to = ''user@example.com#x'', subject = ''Bye''\<rparr>
   \<and> parseUnsubscribeMailTo (\<lambda>_. False) ''user#x@example.com?subject=Bye''
       = Inr \<lparr>to = ''user#x@example.com?subject=Bye'', subject = ''Unsubscribe''\<rparr>"
  by code_simp

end
